theory Spec2Isabelle
  imports Main "HOL-Library.Word"
begin

section \<open>The schema compiler of kong (build.go)\<close>

text \<open>
  \<^verbatim>\<open>build.go\<close> compiles a Go structure, read through package \<^verbatim>\<open>reflect\<close>, into a tree
  of nodes, flags and positional values. The embedding below follows the file function
  by function: \<^verbatim>\<open>flattenedFields\<close>, \<^verbatim>\<open>buildNode\<close>, \<^verbatim>\<open>buildChild\<close>, \<^verbatim>\<open>buildField\<close>,
  \<^verbatim>\<open>buildGroupForKey\<close>, \<^verbatim>\<open>dashedString\<close> and \<^verbatim>\<open>build\<close>. Errors and panics are values
  of the type \<open>error\<close>; the map \<^verbatim>\<open>seenFlags\<close>, which the Go code mutates in place, is
  passed in and returned.
\<close>

subsection \<open>Tags, groups and errors\<close>

type_synonym rune = "32 word"

type_synonym Vars = "string \<rightharpoonup> string"

text \<open>
  The structure \<^verbatim>\<open>Tag\<close> is declared in another file of the package; the record has the
  members that \<^verbatim>\<open>build.go\<close> reads or writes. A short name of 0 means that there is none.
\<close>

record Tag =
  Tag_Ignored :: bool
  Tag_Cmd :: bool
  Tag_Arg :: bool
  Tag_Required :: bool
  Tag_Optional :: bool
  Tag_Name :: string
  Tag_Help :: string
  Tag_Type :: string
  Tag_Default :: string
  Tag_Format :: string
  Tag_PlaceHolder :: string
  Tag_Env :: string
  Tag_Short :: rune
  Tag_Hidden :: bool
  Tag_Enum :: string
  Tag_Group :: string
  Tag_Xor :: "string list"
  Tag_Vars :: Vars
  Tag_Prefix :: string
  Tag_EnvPrefix :: string
  Tag_Embed :: bool
  Tag_Aliases :: "string list"
  Tag_Passthrough :: bool

text \<open>\<^verbatim>\<open>newEmptyTag()\<close>: a tag with every member at its zero value.\<close>

definition newEmptyTag :: Tag where
  "newEmptyTag =
     \<lparr>Tag_Ignored = False, Tag_Cmd = False, Tag_Arg = False, Tag_Required = False,
      Tag_Optional = False, Tag_Name = [], Tag_Help = [], Tag_Type = [], Tag_Default = [],
      Tag_Format = [], Tag_PlaceHolder = [], Tag_Env = [], Tag_Short = 0, Tag_Hidden = False,
      Tag_Enum = [], Tag_Group = [], Tag_Xor = [], Tag_Vars = Map.empty, Tag_Prefix = [],
      Tag_EnvPrefix = [], Tag_Embed = False, Tag_Aliases = [], Tag_Passthrough = False\<rparr>"

text \<open>
  Modelled from the spec: \<^verbatim>\<open>Vars.CloneWith\<close> is declared outside \<^verbatim>\<open>build.go\<close>. The
  spec says that the bindings of the argument are merged over those of the receiver as
  base, the argument's entries taking precedence.
\<close>

definition CloneWith :: "Vars \<Rightarrow> Vars \<Rightarrow> Vars" where
  "CloneWith base vars = base ++ vars"

record Group =
  Group_Key :: string
  Group_Title :: string

text \<open>
  Every \<^verbatim>\<open>fmt.Errorf\<close> and \<^verbatim>\<open>failField\<close> of the file is one constructor, with the
  arguments of its message. \<open>TagError\<close> is an error returned by \<^verbatim>\<open>parseTag\<close>. \<open>Panic\<close> is a
  run-time panic of package \<^verbatim>\<open>reflect\<close>, with the name of the method that panics.
\<close>

datatype error =
    ExpectedStructPointer
  | TagError string
  | MixRoot
  | RequiredAfterOptional string
  | BranchWithoutPositional string
  | BranchNameMismatch string
  | MoreThanOneDefault
  | DefaultWithArgs
  | MixBranch
  | UnsupportedFieldType string
  | DuplicateFlag string
  | DuplicateShortFlag rune
  | Panic string

subsection \<open>Values as package reflect shows them\<close>

record StructField =
  SF_Name :: string
  SF_Anonymous :: bool

text \<open>
  A \<^verbatim>\<open>reflect.Value\<close>, with what the compiler asks of it:
  \<^item> \<open>Struct n fs\<close>: a structure whose type is named \<open>n\<close>, with its fields in order;
  \<^item> \<open>Ptr z p\<close>: a pointer; \<open>p\<close> is what it points to (\<open>None\<close> for nil) and \<open>z\<close> is the
    value \<^verbatim>\<open>reflect.New(t.Elem()).Elem()\<close> of its element type \<open>t.Elem()\<close>;
  \<^item> \<open>Interface p\<close>: a value of interface kind holding \<open>p\<close> (\<open>Invalid\<close> when it is nil);
  \<^item> \<open>PluginsV ps\<close>: a value of the type \<^verbatim>\<open>Plugins\<close>, \<open>ps\<close> being what its elements hold;
  \<^item> \<open>Scalar s\<close>: a value of any other kind, with its contents printed;
  \<^item> \<open>Invalid\<close>: the zero \<^verbatim>\<open>reflect.Value\<close>.

  A field \<open>FieldOf ft cs tg fv\<close> of a structure \<open>v\<close> has the descriptor \<open>ft\<close>
  (\<^verbatim>\<open>v.Type().Field(i)\<close>), the value \<open>fv\<close> (\<^verbatim>\<open>v.Field(i)\<close>), \<open>cs\<close> the answer of
  \<^verbatim>\<open>v.Field(i).CanSet()\<close>, and \<open>tg\<close> the result of \<^verbatim>\<open>parseTag(v, ft)\<close>, which is a function of
  another file. The values form a tree: two pointers never share what they point to, and
  a type that contains itself through a pointer that the compiler follows (on which the
  Go code recurses without end) has no value here.
\<close>

datatype rvalue =
    Struct string "sfield list"
  | Ptr rvalue "rvalue option"
  | Interface rvalue
  | PluginsV "rvalue list"
  | Scalar string
  | Invalid
and sfield =
    FieldOf StructField bool "string + Tag" rvalue

record flattenedField =
  ff_field :: StructField
  ff_value :: rvalue
  ff_tag :: Tag

subsection \<open>flattenedFields\<close>

text \<open>Lines 93 to 103: the tag of an entry of an embedded structure, under the tag of the
  field that embeds it.\<close>

definition composeTag :: "Tag \<Rightarrow> flattenedField \<Rightarrow> flattenedField" where
  "composeTag tag subf =
     subf\<lparr>ff_tag := (ff_tag subf)
       \<lparr>Tag_Group := (if Tag_Group (ff_tag subf) = [] then Tag_Group tag
                      else Tag_Group (ff_tag subf)),
        Tag_Prefix := Tag_Prefix tag @ Tag_Prefix (ff_tag subf),
        Tag_EnvPrefix := Tag_EnvPrefix tag @ Tag_EnvPrefix (ff_tag subf),
        Tag_Vars := CloneWith (Tag_Vars tag) (Tag_Vars (ff_tag subf))\<rparr>\<rparr>"

text \<open>
  \<open>flattenedFields v\<close> returns the list \<^verbatim>\<open>out\<close> and the value \<open>v\<close> as the call leaves it
  (the call stores pointers into it). \<open>flattenLoop\<close> is the loop over the fields,
  \<open>flattenField\<close> the body of the loop from line 69 on for a field whose value is now
  \<open>fv\<close> and for which \<^verbatim>\<open>fv.CanSet()\<close> is \<open>cs\<close>, \<open>flattenPlugins\<close> the loop of line 80.

  \<^verbatim>\<open>reflect.Indirect\<close> follows one pointer; \<^verbatim>\<open>NumField\<close> panics on anything but a structure.
  \<^verbatim>\<open>Set\<close> panics on a value for which \<^verbatim>\<open>CanSet\<close> is false. The value made by
  \<^verbatim>\<open>reflect.New(...).Elem()\<close> can be set.
\<close>

fun flattenedFields :: "rvalue \<Rightarrow> error + (flattenedField list \<times> rvalue)"
  and flattenLoop :: "sfield list \<Rightarrow> error + (flattenedField list \<times> sfield list)"
  and flattenField ::
    "StructField \<Rightarrow> bool \<Rightarrow> Tag \<Rightarrow> rvalue \<Rightarrow> error + (flattenedField list \<times> rvalue)"
  and flattenPlugins :: "rvalue list \<Rightarrow> error + (flattenedField list \<times> rvalue list)"
where
  "flattenedFields (Struct n fs) =
     (case flattenLoop fs of
        Inl e \<Rightarrow> Inl e
      | Inr (out, fs') \<Rightarrow> Inr (out, Struct n fs'))"
| "flattenedFields (Ptr z (Some (Struct n fs))) =
     (case flattenLoop fs of
        Inl e \<Rightarrow> Inl e
      | Inr (out, fs') \<Rightarrow> Inr (out, Ptr z (Some (Struct n fs'))))"
| "flattenedFields (Ptr z (Some (Ptr z' p))) = Inl (Panic ''NumField'')"
| "flattenedFields (Ptr z (Some (Interface p))) = Inl (Panic ''NumField'')"
| "flattenedFields (Ptr z (Some (PluginsV ps))) = Inl (Panic ''NumField'')"
| "flattenedFields (Ptr z (Some (Scalar s))) = Inl (Panic ''NumField'')"
| "flattenedFields (Ptr z (Some Invalid)) = Inl (Panic ''NumField'')"
| "flattenedFields (Ptr z None) = Inl (Panic ''NumField'')"
| "flattenedFields (Interface p) = Inl (Panic ''NumField'')"
| "flattenedFields (PluginsV ps) = Inl (Panic ''NumField'')"
| "flattenedFields (Scalar s) = Inl (Panic ''NumField'')"
| "flattenedFields Invalid = Inl (Panic ''NumField'')"
| "flattenLoop [] = Inr ([], [])"
| "flattenLoop (FieldOf ft cs (Inl e) fv # fs) = Inl (TagError e)"
| "flattenLoop (FieldOf ft cs (Inr tag) fv # fs) =
     (if Tag_Ignored tag then
        (case flattenLoop fs of
           Inl e \<Rightarrow> Inl e
         | Inr (out, fs') \<Rightarrow> Inr (out, FieldOf ft cs (Inr tag) fv # fs'))
      else
        (case
           (case fv of
              Ptr z p \<Rightarrow>
                if Tag_Cmd tag \<or> Tag_Embed tag then
                  (if cs then
                     (case flattenField ft True tag z of
                        Inl e \<Rightarrow> Inl e
                      | Inr (sub, z') \<Rightarrow> Inr (sub, Ptr z (Some z')))
                   else Inl (Panic ''Set''))
                else flattenField ft cs tag fv
            | _ \<Rightarrow> flattenField ft cs tag fv) of
           Inl e \<Rightarrow> Inl e
         | Inr (sub, fv') \<Rightarrow>
             (case flattenLoop fs of
                Inl e \<Rightarrow> Inl e
              | Inr (out, fs') \<Rightarrow> Inr (sub @ out, FieldOf ft cs (Inr tag) fv' # fs'))))"
| "flattenField ft cs tag fv =
     (if \<not> SF_Anonymous ft \<and> \<not> Tag_Embed tag then
        Inr (if cs then [\<lparr>ff_field = ft, ff_value = fv, ff_tag = tag\<rparr>] else [], fv)
      else
        (case fv of
           Interface p \<Rightarrow>
             (case flattenedFields p of
                Inl e \<Rightarrow> Inl e
              | Inr (sub, p') \<Rightarrow> Inr (map (composeTag tag) sub, Interface p'))
         | PluginsV ps \<Rightarrow>
             (case flattenPlugins ps of
                Inl e \<Rightarrow> Inl e
              | Inr (out, ps') \<Rightarrow> Inr (out, PluginsV ps'))
         | _ \<Rightarrow>
             (case flattenedFields fv of
                Inl e \<Rightarrow> Inl e
              | Inr (sub, fv') \<Rightarrow> Inr (map (composeTag tag) sub, fv'))))"
| "flattenPlugins [] = Inr ([], [])"
| "flattenPlugins (p # ps) =
     (case flattenedFields p of
        Inl e \<Rightarrow> Inl e
      | Inr (flds, p') \<Rightarrow>
          (case flattenPlugins ps of
             Inl e \<Rightarrow> Inl e
           | Inr (out, ps') \<Rightarrow> Inr (flds @ out, p' # ps')))"

subsection \<open>The command tree\<close>

text \<open>
  \<^verbatim>\<open>Value\<close>, \<^verbatim>\<open>Flag\<close> and \<^verbatim>\<open>Node\<close> are declared in another file of the package; the
  types below have the members that \<^verbatim>\<open>build.go\<close> sets or reads, but \<^verbatim>\<open>Value.DefaultValue\<close>
  (the zero value of the type of the field) and the back references \<^verbatim>\<open>Value.Flag\<close> and
  \<^verbatim>\<open>Node.Parent\<close>, which the tree below gives by position. A mapper is known by a number.
\<close>

type_synonym Mapper = nat

record Value =
  Value_Name :: string
  Value_Help :: string
  Value_Default :: string
  Value_Mapper :: Mapper
  Value_Tag :: Tag
  Value_Target :: rvalue
  Value_Enum :: string
  Value_Passthrough :: bool
  Value_Required :: bool
  Value_Format :: string
  Value_Position :: nat

record Flag =
  Flag_Value :: Value
  Flag_Short :: rune
  Flag_PlaceHolder :: string
  Flag_Env :: string
  Flag_Group :: "Group option"
  Flag_Xor :: "string list"
  Flag_Hidden :: bool

datatype NodeType = ApplicationNode | CommandNode | ArgumentNode

datatype Node =
  Node (Node_Type: NodeType) (Node_Name: string) (Node_Help: string) (Node_Detail: string)
    (Node_Group: "Group option") (Node_Hidden: bool) (Node_Flags: "Flag list")
    (Node_Positional: "Value list") (Node_Children: "Node list")
    (Node_DefaultCmd: "Node option") (Node_Target: rvalue) (Node_Tag: Tag)
    (Node_Aliases: "string list") (Node_Argument: "Value option")

text \<open>Assignments to one member of a node.\<close>

definition set_Flags :: "Flag list \<Rightarrow> Node \<Rightarrow> Node" where
  "set_Flags x n =
     Node (Node_Type n) (Node_Name n) (Node_Help n) (Node_Detail n) (Node_Group n)
       (Node_Hidden n) x (Node_Positional n) (Node_Children n) (Node_DefaultCmd n)
       (Node_Target n) (Node_Tag n) (Node_Aliases n) (Node_Argument n)"

definition set_Positional :: "Value list \<Rightarrow> Node \<Rightarrow> Node" where
  "set_Positional x n =
     Node (Node_Type n) (Node_Name n) (Node_Help n) (Node_Detail n) (Node_Group n)
       (Node_Hidden n) (Node_Flags n) x (Node_Children n) (Node_DefaultCmd n)
       (Node_Target n) (Node_Tag n) (Node_Aliases n) (Node_Argument n)"

definition set_Children :: "Node list \<Rightarrow> Node \<Rightarrow> Node" where
  "set_Children x n =
     Node (Node_Type n) (Node_Name n) (Node_Help n) (Node_Detail n) (Node_Group n)
       (Node_Hidden n) (Node_Flags n) (Node_Positional n) x (Node_DefaultCmd n)
       (Node_Target n) (Node_Tag n) (Node_Aliases n) (Node_Argument n)"

definition set_DefaultCmd :: "Node option \<Rightarrow> Node \<Rightarrow> Node" where
  "set_DefaultCmd x n =
     Node (Node_Type n) (Node_Name n) (Node_Help n) (Node_Detail n) (Node_Group n)
       (Node_Hidden n) (Node_Flags n) (Node_Positional n) (Node_Children n) x
       (Node_Target n) (Node_Tag n) (Node_Aliases n) (Node_Argument n)"

definition set_Help :: "string \<Rightarrow> Node \<Rightarrow> Node" where
  "set_Help x n =
     Node (Node_Type n) (Node_Name n) x (Node_Detail n) (Node_Group n)
       (Node_Hidden n) (Node_Flags n) (Node_Positional n) (Node_Children n)
       (Node_DefaultCmd n) (Node_Target n) (Node_Tag n) (Node_Aliases n) (Node_Argument n)"

definition set_Argument :: "Value option \<Rightarrow> Node \<Rightarrow> Node" where
  "set_Argument x n =
     Node (Node_Type n) (Node_Name n) (Node_Help n) (Node_Detail n) (Node_Group n)
       (Node_Hidden n) (Node_Flags n) (Node_Positional n) (Node_Children n)
       (Node_DefaultCmd n) (Node_Target n) (Node_Tag n) (Node_Aliases n) x"

subsection \<open>What the compiler is given\<close>

text \<open>
  The members of \<^verbatim>\<open>Kong\<close> that the compiler reads. A pattern of \<^verbatim>\<open>ignoreFields\<close> is the
  predicate \<^verbatim>\<open>MatchString\<close> of its regular expression; the registry of mappers is its two
  look-up functions (\<open>None\<close> for nil).
\<close>

record Kong =
  extraFlags :: "Flag list"
  ignoreFields :: "(string \<Rightarrow> bool) list"
  ForValue :: "rvalue \<Rightarrow> Mapper option"
  ForNamedValue :: "string \<Rightarrow> rvalue \<Rightarrow> Mapper option"
  groups :: "Group list"
  vars :: Vars

text \<open>
  Functions of other files and of the Go library: \<^verbatim>\<open>camelCase\<close>, \<^verbatim>\<open>strings.ToLower\<close>, and
  the method \<^verbatim>\<open>Help\<close> of a structure that is a \<^verbatim>\<open>HelpProvider\<close> (\<open>None\<close> when it is not
  one).
\<close>

record Library =
  camelCase :: "string \<Rightarrow> string list"
  ToLower :: "string \<Rightarrow> string"
  HelpProvider :: "rvalue \<Rightarrow> string option"

text \<open>\<^verbatim>\<open>strings.Join\<close>.\<close>

fun Join :: "string list \<Rightarrow> string \<Rightarrow> string" where
  "Join [] sep = []"
| "Join [s] sep = s"
| "Join (s # t # ss) sep = s @ sep @ Join (t # ss) sep"

definition dashedString :: "Library \<Rightarrow> string \<Rightarrow> string" where
  "dashedString lib s = Join (camelCase lib s) ''-''"

text \<open>
  The conversion \<^verbatim>\<open>string(r)\<close> of a rune: its UTF-8 encoding, and the encoding of U+FFFD for
  a rune that is not a Unicode scalar value.
\<close>

definition runeString :: "rune \<Rightarrow> string" where
  "runeString r =
     (let i = sint r in
      if i < 0 \<or> 0x10FFFF < i \<or> (0xD800 \<le> i \<and> i \<le> 0xDFFF) then
        [char_of (0xEF :: int), char_of (0xBF :: int), char_of (0xBD :: int)]
      else if i < 0x80 then [char_of i]
      else if i < 0x800 then [char_of (0xC0 + i div 0x40), char_of (0x80 + i mod 0x40)]
      else if i < 0x10000 then
        [char_of (0xE0 + i div 0x1000), char_of (0x80 + i div 0x40 mod 0x40),
         char_of (0x80 + i mod 0x40)]
      else
        [char_of (0xF0 + i div 0x40000), char_of (0x80 + i div 0x1000 mod 0x40),
         char_of (0x80 + i div 0x40 mod 0x40), char_of (0x80 + i mod 0x40)])"

subsection \<open>buildGroupForKey and buildField\<close>

definition buildGroupForKey :: "Kong \<Rightarrow> string \<Rightarrow> Group option" where
  "buildGroupForKey k key =
     (if key = [] then None
      else (case find (\<lambda>g. Group_Key g = key) (groups k) of
              Some g \<Rightarrow> Some g
            | None \<Rightarrow> Some \<lparr>Group_Key = key, Group_Title = key\<rparr>))"

text \<open>
  \<open>buildField\<close> returns the node and the map \<^verbatim>\<open>seenFlags\<close> as the call leaves them. The map
  holds no value but \<^verbatim>\<open>true\<close>, so it is the set of its keys.
\<close>

definition buildField ::
  "Kong \<Rightarrow> Node \<Rightarrow> rvalue \<Rightarrow> StructField \<Rightarrow> rvalue \<Rightarrow> Tag \<Rightarrow> string \<Rightarrow> string set
     \<Rightarrow> error + (Node \<times> string set)" where
  "buildField k node v ft fv tag name seenFlags =
     (case ForNamedValue k (Tag_Type tag) fv of
        None \<Rightarrow> Inl (UnsupportedFieldType (SF_Name ft))
      | Some mapper \<Rightarrow>
          (let val =
             \<lparr>Value_Name = name, Value_Help = Tag_Help tag, Value_Default = Tag_Default tag,
              Value_Mapper = mapper, Value_Tag = tag, Value_Target = fv,
              Value_Enum = Tag_Enum tag, Value_Passthrough = Tag_Passthrough tag,
              Value_Required =
                ((\<not> Tag_Arg tag \<and> Tag_Required tag) \<or> (Tag_Arg tag \<and> \<not> Tag_Optional tag)),
              Value_Format = Tag_Format tag, Value_Position = 0\<rparr>
           in
             if Tag_Arg tag then
               Inr (set_Positional (Node_Positional node @ [val]) node, seenFlags)
             else if ''--'' @ Value_Name val \<in> seenFlags then
               Inl (DuplicateFlag (Value_Name val))
             else
               (let seen1 = insert (''--'' @ Value_Name val) seenFlags in
                if Tag_Short tag \<noteq> 0 \<and> ''-'' @ runeString (Tag_Short tag) \<in> seen1 then
                  Inl (DuplicateShortFlag (Tag_Short tag))
                else
                  (let seen2 =
                     (if Tag_Short tag \<noteq> 0
                      then insert (''-'' @ runeString (Tag_Short tag)) seen1 else seen1);
                     flag =
                       \<lparr>Flag_Value = val, Flag_Short = Tag_Short tag,
                        Flag_PlaceHolder = Tag_PlaceHolder tag, Flag_Env = Tag_Env tag,
                        Flag_Group = buildGroupForKey k (Tag_Group tag),
                        Flag_Xor = Tag_Xor tag, Flag_Hidden = Tag_Hidden tag\<rparr>
                   in Inr (set_Flags (Node_Flags node @ [flag]) node, seen2)))))"

subsection \<open>buildNode and buildChild\<close>

text \<open>The node of line 113: \<^verbatim>\<open>&Node{Type: typ, Target: v, Tag: newEmptyTag()}\<close>.\<close>

definition newNode :: "NodeType \<Rightarrow> rvalue \<Rightarrow> Node" where
  "newNode typ v = Node typ [] [] [] None False [] [] [] None v newEmptyTag [] None"

text \<open>\<^verbatim>\<open>v.Type().Name()\<close> (a pointer type has no name) and \<^verbatim>\<open>v.Kind() == reflect.Struct\<close>.\<close>

fun TypeName :: "rvalue \<Rightarrow> string" where
  "TypeName (Struct n fs) = n"
| "TypeName v = []"

fun isStruct :: "rvalue \<Rightarrow> bool" where
  "isStruct (Struct n fs) = True"
| "isStruct v = False"

text \<open>
  The body of the loop \<^verbatim>\<open>MAIN\<close> for a flattened field \<open>f\<close>: the test of lines 125 to 129
  against \<^verbatim>\<open>k.ignoreFields\<close>, the name of lines 135 to 140, the tag after the assignment
  of line 142 (the tag is shared, so that the values and nodes built from it have the new
  \<^verbatim>\<open>Env\<close>), and the test of line 145.
\<close>

definition ignoredField :: "Kong \<Rightarrow> rvalue \<Rightarrow> flattenedField \<Rightarrow> bool" where
  "ignoredField k v f =
     list_ex (\<lambda>r. r (TypeName v @ ''.'' @ SF_Name (ff_field f))) (ignoreFields k)"

definition fieldName :: "Library \<Rightarrow> flattenedField \<Rightarrow> string" where
  "fieldName lib f =
     (if Tag_Name (ff_tag f) = []
      then Tag_Prefix (ff_tag f) @ ToLower lib (dashedString lib (SF_Name (ff_field f)))
      else Tag_Prefix (ff_tag f) @ Tag_Name (ff_tag f))"

definition fieldTag :: "flattenedField \<Rightarrow> Tag" where
  "fieldTag f = (ff_tag f)\<lparr>Tag_Env := Tag_EnvPrefix (ff_tag f) @ Tag_Env (ff_tag f)\<rparr>"

definition isBranch :: "Kong \<Rightarrow> flattenedField \<Rightarrow> bool" where
  "isBranch k f =
     (isStruct (ff_value f) \<and> (Tag_Cmd (fieldTag f) \<or> Tag_Arg (fieldTag f)) \<and>
      ForValue k (ff_value f) = None)"

text \<open>Lines 160 to 165: the flags of the node are deleted from the map.\<close>

fun unsee :: "Flag list \<Rightarrow> string set \<Rightarrow> string set" where
  "unsee [] seenFlags = seenFlags"
| "unsee (flag # flags) seenFlags =
     unsee flags
       (let seen1 = seenFlags - {''--'' @ Value_Name (Flag_Value flag)}
        in if Flag_Short flag \<noteq> 0 then seen1 - {''-'' @ runeString (Flag_Short flag)}
           else seen1)"

text \<open>
  Lines 168 to 176: the loop over \<^verbatim>\<open>node.Positional\<close>, from the index \<open>i\<close> on, with the
  variable \<^verbatim>\<open>last\<close> (here \<open>last'\<close>); it returns the values with their positions.
\<close>

fun scanPositional :: "bool \<Rightarrow> nat \<Rightarrow> Value list \<Rightarrow> error + Value list" where
  "scanPositional last' i [] = Inr []"
| "scanPositional last' i (p # ps) =
     (if \<not> last' \<and> Value_Required p then Inl (RequiredAfterOptional (Value_Name p))
      else (case scanPositional (Value_Required p) (Suc i) ps of
              Inl e \<Rightarrow> Inl e
            | Inr ps' \<Rightarrow> Inr (p\<lparr>Value_Position := i\<rparr> # ps')))"

text \<open>The greatest size of a value of the list: the measure of the loop over the fields.\<close>

fun valuesSize :: "flattenedField list \<Rightarrow> nat" where
  "valuesSize [] = 0"
| "valuesSize (f # fs) = max (size (ff_value f)) (valuesSize fs)"

text \<open>
  The values of the flattened fields are parts of the flattened value: this is why the
  recursion of \<open>buildNode\<close> through \<open>buildChild\<close> ends.
\<close>

lemma ff_value_composeTag [simp]: "ff_value (composeTag tag e) = ff_value e"
  by (simp add: composeTag_def)

lemma flatten_sizes:
  "\<forall>out v'. flattenedFields v = Inr (out, v') \<longrightarrow> (\<forall>e\<in>set out. size (ff_value e) < size v)"
  "\<forall>out fs'. flattenLoop fs = Inr (out, fs') \<longrightarrow>
     (\<forall>e\<in>set out. size (ff_value e) < size_list size fs)"
  "\<forall>out fv'. flattenField ft cs tag fv = Inr (out, fv') \<longrightarrow>
     (\<forall>e\<in>set out. size (ff_value e) \<le> size fv)"
  "\<forall>out ps'. flattenPlugins ps = Inr (out, ps') \<longrightarrow>
     (\<forall>e\<in>set out. size (ff_value e) < size_list size ps)"
proof (induction v and fs and ft cs tag fv and ps
    rule: flattenedFields_flattenLoop_flattenField_flattenPlugins.induct)
  case (15 ft cs tag fv fs)
  show ?case
  proof (intro allI impI ballI)
    fix out fs' e
    assume r: "flattenLoop (FieldOf ft cs (Inr tag) fv # fs) = Inr (out, fs')"
      and e: "e \<in> set out"
    show "size (ff_value e) < size_list size (FieldOf ft cs (Inr tag) fv # fs)"
    proof (cases "Tag_Ignored tag")
      case True
      with r e 15(1) show ?thesis by (auto split: sum.splits prod.splits)
    next
      case False
      show ?thesis
      proof (cases "\<exists>z p. fv = Ptr z p \<and> (Tag_Cmd tag \<or> Tag_Embed tag)")
        case True
        then obtain z p where fv: "fv = Ptr z p" and h: "Tag_Cmd tag \<or> Tag_Embed tag"
          by blast
        from r False fv h have cs: cs by (auto split: if_splits)
        from r False fv h cs obtain sub z' out' fs'' where
          s: "flattenField ft True tag z = Inr (sub, z')"
          and l: "flattenLoop fs = Inr (out', fs'')" and o: "out = sub @ out'"
          by (auto split: sum.splits prod.splits)
        have 1: "\<forall>e\<in>set sub. size (ff_value e) \<le> size z"
          using 15 False fv h cs s by simp
        have 2: "\<forall>e\<in>set out'. size (ff_value e) < size_list size fs"
          using 15 False fv h cs s l by simp
        from e o 1 2 fv show ?thesis by auto
      next
        case nh: False
        from r False nh obtain sub fv1 out' fs'' where
          s: "flattenField ft cs tag fv = Inr (sub, fv1)"
          and l: "flattenLoop fs = Inr (out', fs'')" and o: "out = sub @ out'"
          by (auto split: sum.splits prod.splits rvalue.splits if_splits)
        have 1: "\<forall>e\<in>set sub. size (ff_value e) \<le> size fv"
          using 15 False nh s by (cases fv) auto
        have 2: "\<forall>e\<in>set out'. size (ff_value e) < size_list size fs"
          using 15 False nh s l by (cases fv) auto
        from e o 1 2 show ?thesis by auto
      qed
    qed
  qed
next
  case (16 ft cs tag fv)
  then show ?case
    by (cases fv) (force split: sum.splits prod.splits if_splits)+
next
  case (18 p ps)
  then show ?case by (fastforce split: sum.splits prod.splits)
qed (force split: sum.splits prod.splits)+

lemma valuesSize_less:
  "(\<forall>e\<in>set fs. size (ff_value e) < n) \<Longrightarrow> 0 < n \<Longrightarrow> valuesSize fs < n"
  by (induction fs) auto

lemma flattenedFields_valuesSize:
  "flattenedFields v = Inr (out, v') \<Longrightarrow> valuesSize out < size v"
  using flatten_sizes(1)[of v] by (cases v) (auto intro!: valuesSize_less)

text \<open>
  \<open>buildNode\<close>, the loop labelled \<^verbatim>\<open>MAIN\<close> over the flattened fields (\<open>buildFields\<close>) and
  \<open>buildChild\<close> call each other. Each returns the map \<^verbatim>\<open>seenFlags\<close> as it leaves it, and
  \<open>buildFields\<close> and \<open>buildChild\<close> the node that they change.
\<close>

function buildNode ::
    "Kong \<Rightarrow> Library \<Rightarrow> rvalue \<Rightarrow> NodeType \<Rightarrow> string set \<Rightarrow> error + (Node \<times> string set)"
  and buildFields ::
    "Kong \<Rightarrow> Library \<Rightarrow> rvalue \<Rightarrow> flattenedField list \<Rightarrow> Node \<Rightarrow> string set
       \<Rightarrow> error + (Node \<times> string set)"
  and buildChild ::
    "Kong \<Rightarrow> Library \<Rightarrow> Node \<Rightarrow> NodeType \<Rightarrow> rvalue \<Rightarrow> StructField \<Rightarrow> rvalue \<Rightarrow> Tag \<Rightarrow> string
       \<Rightarrow> string set \<Rightarrow> error + (Node \<times> string set)"
where
  "buildNode k lib v typ seenFlags =
     (case flattenedFields v of
        Inl e \<Rightarrow> Inl e
      | Inr (flds, v') \<Rightarrow>
          (case buildFields k lib v flds (newNode typ v) seenFlags of
             Inl e \<Rightarrow> Inl e
           | Inr (node, seen1) \<Rightarrow>
               (case scanPositional True 0 (Node_Positional node) of
                  Inl e \<Rightarrow> Inl e
                | Inr ps \<Rightarrow> Inr (set_Positional ps node, unsee (Node_Flags node) seen1))))"
| "buildFields k lib v [] node seenFlags = Inr (node, seenFlags)"
| "buildFields k lib v (f # fs) node seenFlags =
     (if ignoredField k v f then buildFields k lib v fs node seenFlags
      else
        (case
           (if isBranch k f
            then buildChild k lib node
                   (if Tag_Arg (fieldTag f) then ArgumentNode else CommandNode)
                   v (ff_field f) (ff_value f) (fieldTag f) (fieldName lib f) seenFlags
            else buildField k node v (ff_field f) (ff_value f) (fieldTag f) (fieldName lib f)
                   seenFlags) of
           Inl e \<Rightarrow> Inl e
         | Inr (node', seen') \<Rightarrow> buildFields k lib v fs node' seen'))"
| "buildChild k lib node typ v ft fv tag name seenFlags =
     (case buildNode k lib fv typ seenFlags of
        Inl e \<Rightarrow> Inl e
      | Inr (built, seen') \<Rightarrow>
          (let child =
             Node (Node_Type built) name (Tag_Help tag)
               (case HelpProvider lib fv of Some d \<Rightarrow> d | None \<Rightarrow> Node_Detail built)
               (buildGroupForKey k (Tag_Group tag)) (Tag_Hidden tag) (Node_Flags built)
               (Node_Positional built) (Node_Children built) (Node_DefaultCmd built)
               (Node_Target built) tag (Tag_Aliases tag) (Node_Argument built)
           in
             (case
                (if Tag_Arg tag then
                   (case Node_Positional child of
                      [] \<Rightarrow> Inl (BranchWithoutPositional name)
                    | p # ps \<Rightarrow>
                        if Value_Name p \<noteq> name then Inl (BranchNameMismatch (Node_Name child))
                        else
                          Inr (node,
                               (let c = set_Positional ps (set_Argument (Some p) child)
                                in if Node_Help c = [] then set_Help (Value_Help p) c else c)))
                 else if Tag_Default tag \<noteq> [] then
                   (case Node_DefaultCmd node of
                      Some d \<Rightarrow> Inl MoreThanOneDefault
                    | None \<Rightarrow>
                        if Tag_Default tag \<noteq> ''withargs'' \<and>
                           (0 < length (Node_Children child) \<or>
                            0 < length (Node_Positional child))
                        then Inl DefaultWithArgs
                        else Inr (set_DefaultCmd (Some child) node, child))
                 else Inr (node, child)) of
                Inl e \<Rightarrow> Inl e
              | Inr (node1, child1) \<Rightarrow>
                  if 0 < length (Node_Positional child1) \<and> 0 < length (Node_Children child1)
                  then Inl MixBranch
                  else Inr (set_Children (Node_Children node1 @ [child1]) node1, seen'))))"
  by pat_completeness auto

termination buildNode
  apply (relation "inv_image (less_than <*lex*> less_than)
     (\<lambda>x. case x of
        Inl (k, lib, v, typ, seen) \<Rightarrow> (size v, 0)
      | Inr (Inl (k, lib, v, fs, node, seen)) \<Rightarrow> (valuesSize fs, Suc (Suc (length fs)))
      | Inr (Inr (k, lib, node, typ, v, ft, fv, tag, name, seen)) \<Rightarrow> (size fv, Suc 0))")
  subgoal by (intro wf_inv_image wf_lex_prod wf_less_than)
  subgoal by (auto simp: flattenedFields_valuesSize)
  subgoal by (auto simp: max_def)
  subgoal by (auto simp: max_def)
  subgoal by (auto simp: max_def)
  subgoal by simp
  done

subsection \<open>build\<close>

text \<open>\<^verbatim>\<open>reflect.Indirect\<close> and \<^verbatim>\<open>v.Kind() == reflect.Ptr\<close>.\<close>

fun Indirect :: "rvalue \<Rightarrow> rvalue" where
  "Indirect (Ptr z (Some v)) = v"
| "Indirect (Ptr z None) = Invalid"
| "Indirect v = v"

fun isPtr :: "rvalue \<Rightarrow> bool" where
  "isPtr (Ptr z p) = True"
| "isPtr v = False"

definition set_Tag :: "Tag \<Rightarrow> Node \<Rightarrow> Node" where
  "set_Tag x n =
     Node (Node_Type n) (Node_Name n) (Node_Help n) (Node_Detail n) (Node_Group n)
       (Node_Hidden n) (Node_Flags n) (Node_Positional n) (Node_Children n)
       (Node_DefaultCmd n) (Node_Target n) x (Node_Aliases n) (Node_Argument n)"

text \<open>
  \<^verbatim>\<open>Application\<close> is declared in another file: it embeds the pointer to its root node, so
  that \<^verbatim>\<open>app.Tag\<close> is the tag of that node.
\<close>

record Application =
  App_Node :: Node

definition build :: "Kong \<Rightarrow> Library \<Rightarrow> rvalue \<Rightarrow> error + Application" where
  "build k lib ast =
     (if \<not> isPtr ast \<or> \<not> isStruct (Indirect ast) then Inl ExpectedStructPointer
      else
        (let seenFlags = (\<lambda>flag. Value_Name (Flag_Value flag)) ` set (extraFlags k) in
         case buildNode k lib (Indirect ast) ApplicationNode seenFlags of
           Inl e \<Rightarrow> Inl e
         | Inr (node, seen') \<Rightarrow>
             if 0 < length (Node_Positional node) \<and> 0 < length (Node_Children node)
             then Inl MixRoot
             else
               Inr \<lparr>App_Node =
                      set_Tag (newEmptyTag\<lparr>Tag_Vars := vars k\<rparr>)
                        (set_Flags (extraFlags k @ Node_Flags node) node)\<rparr>))"

subsection \<open>Example schemas\<close>

text \<open>
  A library whose \<^verbatim>\<open>camelCase\<close> returns the one word it is given and whose \<^verbatim>\<open>ToLower\<close>
  lowers the letters A to Z, and a compiler with no option set and a mapper (number 0)
  for every value that is not a structure, a pointer, an interface or a plugin list.
\<close>

definition exLib :: Library where
  "exLib =
     \<lparr>camelCase = (\<lambda>s. [s]),
      ToLower = map (\<lambda>c. if of_char c \<in> {65..90::nat}
                           then char_of (of_char c + 32 :: nat) else c),
      HelpProvider = (\<lambda>v. None)\<rparr>"

definition exKong :: Kong where
  "exKong =
     \<lparr>extraFlags = [], ignoreFields = [], ForValue = (\<lambda>v. None),
      ForNamedValue = (\<lambda>t v. case v of Scalar s \<Rightarrow> Some 0 | _ \<Rightarrow> None),
      groups = [], vars = Map.empty\<rparr>"

text \<open>An exported field that is not embedded, with the tag \<open>t\<close> and the value \<open>v\<close>.\<close>

definition exField :: "string \<Rightarrow> Tag \<Rightarrow> rvalue \<Rightarrow> sfield" where
  "exField n t v = FieldOf \<lparr>SF_Name = n, SF_Anonymous = False\<rparr> True (Inr t) v"

text \<open>
  The field \<^verbatim>\<open>Name struct { Name string `arg:"" help:"The name."`; Extra string `arg:"" optional:""` } `arg:""`\<close>
  of a structure \<^verbatim>\<open>CLI\<close>, and the call of \<open>buildChild\<close> for it on a new node.
\<close>

definition exArgTag :: Tag where
  "exArgTag = newEmptyTag\<lparr>Tag_Arg := True\<rparr>"

definition exBranch :: rvalue where
  "exBranch =
     Struct []
       [exField ''Name'' (newEmptyTag\<lparr>Tag_Arg := True, Tag_Help := ''The name.''\<rparr>) (Scalar []),
        exField ''Extra'' (newEmptyTag\<lparr>Tag_Arg := True, Tag_Optional := True\<rparr>) (Scalar [])]"

definition exBranchResult :: "error + (Node \<times> string set)" where
  "exBranchResult =
     buildChild exKong exLib (newNode ApplicationNode (Struct ''CLI'' [])) ArgumentNode
       (Struct ''CLI'' []) \<lparr>SF_Name = ''Name'', SF_Anonymous = False\<rparr> exBranch exArgTag
       ''name'' {}"

text \<open>
  The fields \<^verbatim>\<open>Serve struct {} `cmd:"" default:"1"`\<close> and
  \<^verbatim>\<open>Run struct { File string `arg:""` } `cmd:"" default:"1"`\<close>, and the call of \<open>buildChild\<close> for
  the first on a new node.
\<close>

definition exDefaultTag :: Tag where
  "exDefaultTag = newEmptyTag\<lparr>Tag_Cmd := True, Tag_Default := ''1''\<rparr>"

definition exRun :: rvalue where
  "exRun = Struct [] [exField ''File'' (newEmptyTag\<lparr>Tag_Arg := True\<rparr>) (Scalar [])]"

definition exServeResult :: "error + (Node \<times> string set)" where
  "exServeResult =
     buildChild exKong exLib (newNode ApplicationNode (Struct ''CLI'' [])) CommandNode
       (Struct ''CLI'' []) \<lparr>SF_Name = ''Serve'', SF_Anonymous = False\<rparr> (Struct [] [])
       exDefaultTag ''serve'' {}"

text \<open>A positional value with the name \<open>n\<close>, required when \<open>r\<close> holds.\<close>

definition exValue :: "string \<Rightarrow> bool \<Rightarrow> Value" where
  "exValue n r =
     \<lparr>Value_Name = n, Value_Help = [], Value_Default = [], Value_Mapper = 0,
      Value_Tag = newEmptyTag, Value_Target = Scalar [], Value_Enum = [],
      Value_Passthrough = False, Value_Required = r, Value_Format = [], Value_Position = 0\<rparr>"

text \<open>The error of a result, if it is one.\<close>

definition errorOf :: "error + 'a \<Rightarrow> error option" where
  "errorOf r = (case r of Inl e \<Rightarrow> Some e | Inr x \<Rightarrow> None)"

text \<open>
  The structure \<^verbatim>\<open>ServeCmd { Port int }\<close> with the port 0, as \<^verbatim>\<open>reflect.New\<close> makes it, and
  with the port 8080; \<^verbatim>\<open>CLI { Serve *ServeCmd `cmd:""` }\<close> with a pointer to the latter; and
  \<^verbatim>\<open>CLI { serve *ServeCmd `cmd:""` }\<close>, whose field is not exported, with a nil pointer.
\<close>

definition exServeZero :: rvalue where
  "exServeZero = Struct ''ServeCmd'' [exField ''Port'' newEmptyTag (Scalar ''0'')]"

definition exServeSet :: rvalue where
  "exServeSet = Struct ''ServeCmd'' [exField ''Port'' newEmptyTag (Scalar ''8080'')]"

definition exCmdTag :: Tag where
  "exCmdTag = newEmptyTag\<lparr>Tag_Cmd := True\<rparr>"

definition exServePresent :: rvalue where
  "exServePresent =
     Struct ''CLI'' [exField ''Serve'' exCmdTag (Ptr exServeZero (Some exServeSet))]"

definition exServeUnexported :: rvalue where
  "exServeUnexported =
     Struct ''CLI''
       [FieldOf \<lparr>SF_Name = ''serve'', SF_Anonymous = False\<rparr> False (Inr exCmdTag)
          (Ptr exServeZero None)]"

text \<open>The values of the fields of a structure.\<close>

fun fieldValues :: "rvalue \<Rightarrow> rvalue list" where
  "fieldValues (Struct n fs) = map (\<lambda>f. case f of FieldOf ft cs tg fv \<Rightarrow> fv) fs"
| "fieldValues v = []"

text \<open>
  \<^verbatim>\<open>CLI { DB DBConfig `embed:"" prefix:"db-"` }\<close> with \<^verbatim>\<open>DBConfig { Host string }\<close>, and the same
  with one more level,
  \<^verbatim>\<open>CLI { DB struct { Primary DBConfig `embed:"" prefix:"primary-"` } `embed:"" prefix:"db-"` }\<close>.
\<close>

definition exDBConfig :: rvalue where
  "exDBConfig = Struct ''DBConfig'' [exField ''Host'' newEmptyTag (Scalar [])]"

definition exDBTag :: Tag where
  "exDBTag = newEmptyTag\<lparr>Tag_Embed := True, Tag_Prefix := ''db-''\<rparr>"

definition exEmbed :: rvalue where
  "exEmbed = Ptr Invalid (Some (Struct ''CLI'' [exField ''DB'' exDBTag exDBConfig]))"

definition exEmbedNested :: rvalue where
  "exEmbedNested =
     Ptr Invalid (Some (Struct ''CLI''
       [exField ''DB'' exDBTag
          (Struct []
             [exField ''Primary'' (newEmptyTag\<lparr>Tag_Embed := True, Tag_Prefix := ''primary-''\<rparr>)
                exDBConfig])]))"

text \<open>The names of the flags of the root node of a compiled application.\<close>

definition flagNames :: "error + Application \<Rightarrow> string list" where
  "flagNames r =
     (case r of
        Inl e \<Rightarrow> []
      | Inr app \<Rightarrow> map (\<lambda>flag. Value_Name (Flag_Value flag)) (Node_Flags (App_Node app)))"

text \<open>
  The flag \<^verbatim>\<open>--help\<close> with the short name \<^verbatim>\<open>-h\<close>, given to the compiler as a global flag,
  and the structure \<^verbatim>\<open>CLI { Help bool }\<close>.
\<close>

definition exHelpFlag :: Flag where
  "exHelpFlag =
     \<lparr>Flag_Value = (exValue ''help'' False)\<lparr>Value_Help := ''Show context-sensitive help.''\<rparr>,
      Flag_Short = 104, Flag_PlaceHolder = [], Flag_Env = [], Flag_Group = None,
      Flag_Xor = [], Flag_Hidden = False\<rparr>"

definition exKongHelp :: Kong where
  "exKongHelp = exKong\<lparr>extraFlags := [exHelpFlag]\<rparr>"

definition exHelpCLI :: rvalue where
  "exHelpCLI = Ptr Invalid (Some (Struct ''CLI'' [exField ''Help'' newEmptyTag (Scalar ''false'')]))"

text \<open>
  \<^verbatim>\<open>CLI { Run struct { File string `arg:""` } `cmd:""` }\<close>, the same with a positional
  value \<^verbatim>\<open>Path\<close> beside the command, and the same with a command \<^verbatim>\<open>Sub\<close> beside \<^verbatim>\<open>File\<close>.
\<close>

definition exRunCLI :: rvalue where
  "exRunCLI = Ptr Invalid (Some (Struct ''CLI'' [exField ''Run'' exCmdTag exRun]))"

definition exMixRootCLI :: rvalue where
  "exMixRootCLI =
     Ptr Invalid (Some (Struct ''CLI''
       [exField ''Run'' exCmdTag exRun, exField ''Path'' exArgTag (Scalar [])]))"

definition exMixBranch :: rvalue where
  "exMixBranch =
     Struct []
       [exField ''File'' exArgTag (Scalar []), exField ''Sub'' exCmdTag (Struct [] [])]"

text \<open>
  The field \<^verbatim>\<open>Port int `short:"p"`\<close>, and four structures with it:
  \<^verbatim>\<open>CLI { Serve struct { Port } `cmd:""`; Build struct { Port } `cmd:""` }\<close>,
  \<^verbatim>\<open>CLI { Port; Serve struct { Port } `cmd:""` }\<close>,
  \<^verbatim>\<open>CLI { Serve struct { Port } `cmd:""`; Port }\<close> and, with \<^verbatim>\<open>Publish int `short:"p"`\<close> in the
  command, \<^verbatim>\<open>CLI { Port; Serve struct { Publish } `cmd:""` }\<close>.
\<close>

definition exPort :: sfield where
  "exPort = exField ''Port'' (newEmptyTag\<lparr>Tag_Short := 112\<rparr>) (Scalar ''0'')"

definition exSiblingsCLI :: rvalue where
  "exSiblingsCLI =
     Ptr Invalid (Some (Struct ''CLI''
       [exField ''Serve'' exCmdTag (Struct [] [exPort]),
        exField ''Build'' exCmdTag (Struct [] [exPort])]))"

definition exFlagFirstCLI :: rvalue where
  "exFlagFirstCLI =
     Ptr Invalid (Some (Struct ''CLI''
       [exPort, exField ''Serve'' exCmdTag (Struct [] [exPort])]))"

definition exFlagLastCLI :: rvalue where
  "exFlagLastCLI =
     Ptr Invalid (Some (Struct ''CLI''
       [exField ''Serve'' exCmdTag (Struct [] [exPort]), exPort]))"

definition exShortCLI :: rvalue where
  "exShortCLI =
     Ptr Invalid (Some (Struct ''CLI''
       [exPort,
        exField ''Serve'' exCmdTag
          (Struct [] [exField ''Publish'' (newEmptyTag\<lparr>Tag_Short := 112\<rparr>) (Scalar ''0'')])]))"

text \<open>The long and short names of the flags of a node, and those of its children.\<close>

definition flagsOf :: "Node \<Rightarrow> (string \<times> rune) list" where
  "flagsOf n = map (\<lambda>flag. (Value_Name (Flag_Value flag), Flag_Short flag)) (Node_Flags n)"

definition childFlags :: "error + Application \<Rightarrow> (string \<times> (string \<times> rune) list) list" where
  "childFlags r =
     (case r of
        Inl e \<Rightarrow> []
      | Inr app \<Rightarrow> map (\<lambda>c. (Node_Name c, flagsOf c)) (Node_Children (App_Node app)))"

text \<open>
  \<^verbatim>\<open>CLI { Port int `short:"p"`; Serve struct { Host string } `cmd:""` }\<close>, and its two
  flattened fields.
\<close>

definition exPortEntry :: flattenedField where
  "exPortEntry =
     \<lparr>ff_field = \<lparr>SF_Name = ''Port'', SF_Anonymous = False\<rparr>, ff_value = Scalar ''0'',
      ff_tag = newEmptyTag\<lparr>Tag_Short := 112\<rparr>\<rparr>"

definition exServeEntry :: flattenedField where
  "exServeEntry =
     \<lparr>ff_field = \<lparr>SF_Name = ''Serve'', SF_Anonymous = False\<rparr>,
      ff_value = Struct [] [exField ''Host'' newEmptyTag (Scalar [])], ff_tag = exCmdTag\<rparr>"

definition exPortServe :: rvalue where
  "exPortServe =
     Struct ''CLI''
       [exPort, exField ''Serve'' exCmdTag (Struct [] [exField ''Host'' newEmptyTag (Scalar [])])]"

text \<open>
  \<^verbatim>\<open>CLI { serve ServeCmd `cmd:""` }\<close>: the field, not exported, holds the structure itself.
\<close>

definition exServeUnexportedValue :: rvalue where
  "exServeUnexportedValue =
     Struct ''CLI''
       [FieldOf \<lparr>SF_Name = ''serve'', SF_Anonymous = False\<rparr> False (Inr exCmdTag) exServeZero]"

subsection \<open>Predicates of the properties\<close>

text \<open>\<^verbatim>\<open>fv.Type() == reflect.TypeOf(Plugins{})\<close>.\<close>

fun isPlugins :: "rvalue \<Rightarrow> bool" where
  "isPlugins (PluginsV ps) = True"
| "isPlugins v = False"

text \<open>
  A child that the default-command branch of \<open>buildChild\<close> (line 213) has handled: its tag
  has a default and is not that of a positional argument.
\<close>

definition isDefaultChild :: "Node \<Rightarrow> bool" where
  "isDefaultChild c = (\<not> Tag_Arg (Node_Tag c) \<and> Tag_Default (Node_Tag c) \<noteq> [])"

text \<open>No node of the tree has both children and positional values.\<close>

fun noMix :: "Node \<Rightarrow> bool" where
  "noMix (Node typ name help detail grp hidden flags positional children dflt target tag aliases
      arg) =
     ((positional = [] \<or> children = []) \<and> (\<forall>c\<in>set children. noMix c))"

text \<open>
  The keys that \<open>buildField\<close> stores in the map for a flag, and that the loop of line 160
  deletes: its name after two dashes and, if it has one, its short name after one.
\<close>

definition flagKeys :: "Flag \<Rightarrow> string list" where
  "flagKeys flag =
     (''--'' @ Value_Name (Flag_Value flag)) #
     (if Flag_Short flag \<noteq> 0 then [''-'' @ runeString (Flag_Short flag)] else [])"

text \<open>
  \<open>keysScoped S n\<close>: in the tree of \<open>n\<close>, the keys of the flags of one node differ from each
  other, and no flag has a key in \<open>S\<close>.
\<close>

fun keysScoped :: "string set \<Rightarrow> Node \<Rightarrow> bool" where
  "keysScoped S (Node typ name help detail grp hidden flags positional children dflt target tag
      aliases arg) =
     (distinct (concat (map flagKeys flags)) \<and> set (concat (map flagKeys flags)) \<inter> S = {} \<and>
      (\<forall>c\<in>set children. keysScoped S c))"

text \<open>
  \<open>flagsScoped S n\<close>, the same in terms of names: in the tree of \<open>n\<close>, the flags of one
  node have different names and, those that have one, different short names, and no flag
  has its name after two dashes, or its short name after one, in \<open>S\<close>.
\<close>

fun flagsScoped :: "string set \<Rightarrow> Node \<Rightarrow> bool" where
  "flagsScoped S (Node typ name help detail grp hidden flags positional children dflt target tag
      aliases arg) =
     (distinct (map (\<lambda>flag. Value_Name (Flag_Value flag)) flags) \<and>
      distinct (filter (\<lambda>r. r \<noteq> 0) (map Flag_Short flags)) \<and>
      (\<forall>flag\<in>set flags.
         ''--'' @ Value_Name (Flag_Value flag) \<notin> S \<and>
         (Flag_Short flag \<noteq> 0 \<longrightarrow> ''-'' @ runeString (Flag_Short flag) \<notin> S)) \<and>
      (\<forall>c\<in>set children. flagsScoped S c))"

text \<open>
  \<open>keysInv S0 node seen\<close>: while the fields of a node are built from the map \<open>S0\<close>, the map
  is \<open>S0\<close> and the keys of the flags of the node so far, which differ from each other and
  are not in \<open>S0\<close>, and the children so far have no key of \<open>S0\<close>.
\<close>

definition keysInv :: "string set \<Rightarrow> Node \<Rightarrow> string set \<Rightarrow> bool" where
  "keysInv S0 node seen =
     (seen = S0 \<union> set (concat (map flagKeys (Node_Flags node))) \<and>
      distinct (concat (map flagKeys (Node_Flags node))) \<and>
      set (concat (map flagKeys (Node_Flags node))) \<inter> S0 = {} \<and>
      (\<forall>c\<in>set (Node_Children node). keysScoped S0 c))"

section \<open>Properties\<close>

subsection \<open>Members of a node after an assignment\<close>

lemma Node_sel_set [simp]:
  "Node_Type (set_Flags fl n) = Node_Type n"
  "Node_Name (set_Flags fl n) = Node_Name n"
  "Node_Help (set_Flags fl n) = Node_Help n"
  "Node_Detail (set_Flags fl n) = Node_Detail n"
  "Node_Group (set_Flags fl n) = Node_Group n"
  "Node_Hidden (set_Flags fl n) = Node_Hidden n"
  "Node_Flags (set_Flags fl n) = fl"
  "Node_Positional (set_Flags fl n) = Node_Positional n"
  "Node_Children (set_Flags fl n) = Node_Children n"
  "Node_DefaultCmd (set_Flags fl n) = Node_DefaultCmd n"
  "Node_Target (set_Flags fl n) = Node_Target n"
  "Node_Tag (set_Flags fl n) = Node_Tag n"
  "Node_Aliases (set_Flags fl n) = Node_Aliases n"
  "Node_Argument (set_Flags fl n) = Node_Argument n"
  "Node_Type (set_Positional ps n) = Node_Type n"
  "Node_Name (set_Positional ps n) = Node_Name n"
  "Node_Help (set_Positional ps n) = Node_Help n"
  "Node_Detail (set_Positional ps n) = Node_Detail n"
  "Node_Group (set_Positional ps n) = Node_Group n"
  "Node_Hidden (set_Positional ps n) = Node_Hidden n"
  "Node_Flags (set_Positional ps n) = Node_Flags n"
  "Node_Positional (set_Positional ps n) = ps"
  "Node_Children (set_Positional ps n) = Node_Children n"
  "Node_DefaultCmd (set_Positional ps n) = Node_DefaultCmd n"
  "Node_Target (set_Positional ps n) = Node_Target n"
  "Node_Tag (set_Positional ps n) = Node_Tag n"
  "Node_Aliases (set_Positional ps n) = Node_Aliases n"
  "Node_Argument (set_Positional ps n) = Node_Argument n"
  "Node_Type (set_Children cs n) = Node_Type n"
  "Node_Name (set_Children cs n) = Node_Name n"
  "Node_Help (set_Children cs n) = Node_Help n"
  "Node_Detail (set_Children cs n) = Node_Detail n"
  "Node_Group (set_Children cs n) = Node_Group n"
  "Node_Hidden (set_Children cs n) = Node_Hidden n"
  "Node_Flags (set_Children cs n) = Node_Flags n"
  "Node_Positional (set_Children cs n) = Node_Positional n"
  "Node_Children (set_Children cs n) = cs"
  "Node_DefaultCmd (set_Children cs n) = Node_DefaultCmd n"
  "Node_Target (set_Children cs n) = Node_Target n"
  "Node_Tag (set_Children cs n) = Node_Tag n"
  "Node_Aliases (set_Children cs n) = Node_Aliases n"
  "Node_Argument (set_Children cs n) = Node_Argument n"
  "Node_Type (set_DefaultCmd d n) = Node_Type n"
  "Node_Name (set_DefaultCmd d n) = Node_Name n"
  "Node_Help (set_DefaultCmd d n) = Node_Help n"
  "Node_Detail (set_DefaultCmd d n) = Node_Detail n"
  "Node_Group (set_DefaultCmd d n) = Node_Group n"
  "Node_Hidden (set_DefaultCmd d n) = Node_Hidden n"
  "Node_Flags (set_DefaultCmd d n) = Node_Flags n"
  "Node_Positional (set_DefaultCmd d n) = Node_Positional n"
  "Node_Children (set_DefaultCmd d n) = Node_Children n"
  "Node_DefaultCmd (set_DefaultCmd d n) = d"
  "Node_Target (set_DefaultCmd d n) = Node_Target n"
  "Node_Tag (set_DefaultCmd d n) = Node_Tag n"
  "Node_Aliases (set_DefaultCmd d n) = Node_Aliases n"
  "Node_Argument (set_DefaultCmd d n) = Node_Argument n"
  "Node_Type (set_Help h n) = Node_Type n"
  "Node_Name (set_Help h n) = Node_Name n"
  "Node_Help (set_Help h n) = h"
  "Node_Detail (set_Help h n) = Node_Detail n"
  "Node_Group (set_Help h n) = Node_Group n"
  "Node_Hidden (set_Help h n) = Node_Hidden n"
  "Node_Flags (set_Help h n) = Node_Flags n"
  "Node_Positional (set_Help h n) = Node_Positional n"
  "Node_Children (set_Help h n) = Node_Children n"
  "Node_DefaultCmd (set_Help h n) = Node_DefaultCmd n"
  "Node_Target (set_Help h n) = Node_Target n"
  "Node_Tag (set_Help h n) = Node_Tag n"
  "Node_Aliases (set_Help h n) = Node_Aliases n"
  "Node_Argument (set_Help h n) = Node_Argument n"
  "Node_Type (set_Argument a n) = Node_Type n"
  "Node_Name (set_Argument a n) = Node_Name n"
  "Node_Help (set_Argument a n) = Node_Help n"
  "Node_Detail (set_Argument a n) = Node_Detail n"
  "Node_Group (set_Argument a n) = Node_Group n"
  "Node_Hidden (set_Argument a n) = Node_Hidden n"
  "Node_Flags (set_Argument a n) = Node_Flags n"
  "Node_Positional (set_Argument a n) = Node_Positional n"
  "Node_Children (set_Argument a n) = Node_Children n"
  "Node_DefaultCmd (set_Argument a n) = Node_DefaultCmd n"
  "Node_Target (set_Argument a n) = Node_Target n"
  "Node_Tag (set_Argument a n) = Node_Tag n"
  "Node_Aliases (set_Argument a n) = Node_Aliases n"
  "Node_Argument (set_Argument a n) = a"
  "Node_Type (set_Tag t n) = Node_Type n"
  "Node_Name (set_Tag t n) = Node_Name n"
  "Node_Help (set_Tag t n) = Node_Help n"
  "Node_Detail (set_Tag t n) = Node_Detail n"
  "Node_Group (set_Tag t n) = Node_Group n"
  "Node_Hidden (set_Tag t n) = Node_Hidden n"
  "Node_Flags (set_Tag t n) = Node_Flags n"
  "Node_Positional (set_Tag t n) = Node_Positional n"
  "Node_Children (set_Tag t n) = Node_Children n"
  "Node_DefaultCmd (set_Tag t n) = Node_DefaultCmd n"
  "Node_Target (set_Tag t n) = Node_Target n"
  "Node_Tag (set_Tag t n) = t"
  "Node_Aliases (set_Tag t n) = Node_Aliases n"
  "Node_Argument (set_Tag t n) = Node_Argument n"
  by (simp_all add: set_Flags_def set_Positional_def set_Children_def set_DefaultCmd_def
      set_Help_def set_Argument_def set_Tag_def)

lemma Node_sel_newNode [simp]:
  "Node_Type (newNode typ v) = typ"
  "Node_Flags (newNode typ v) = []"
  "Node_Positional (newNode typ v) = []"
  "Node_Children (newNode typ v) = []"
  "Node_DefaultCmd (newNode typ v) = None"
  "Node_Argument (newNode typ v) = None"
  "Node_Target (newNode typ v) = v"
  "Node_Tag (newNode typ v) = newEmptyTag"
  by (simp_all add: newNode_def)

subsection \<open>What a successful call returns\<close>

lemma buildNode_Inr:
  assumes "buildNode k lib v typ seen = Inr (node, seen')"
  obtains flds v' n1 s1 ps where
    "flattenedFields v = Inr (flds, v')"
    "buildFields k lib v flds (newNode typ v) seen = Inr (n1, s1)"
    "scanPositional True 0 (Node_Positional n1) = Inr ps"
    "node = set_Positional ps n1" "seen' = unsee (Node_Flags n1) s1"
  using assms by (auto split: sum.splits prod.splits)

lemma buildChild_Inr:
  assumes "buildChild k lib node typ v ft fv tag name seen = Inr (node', seen')"
  obtains built child where
    "buildNode k lib fv typ seen = Inr (built, seen')"
    "Node_Children node' = Node_Children node @ [child]"
    "Node_Flags node' = Node_Flags node" "Node_Positional node' = Node_Positional node"
    "Node_Flags child = Node_Flags built" "Node_Children child = Node_Children built"
    "Node_Positional child = [] \<or> Node_Children child = []"
    "Node_Tag child = tag" "Node_Name child = name"
proof -
  from assms obtain built where b: "buildNode k lib fv typ seen = Inr (built, seen')"
    by (auto simp: Let_def split: sum.splits if_splits list.splits)
  from assms b obtain child where
    "Node_Children node' = Node_Children node @ [child]"
    "Node_Flags node' = Node_Flags node" "Node_Positional node' = Node_Positional node"
    "Node_Flags child = Node_Flags built" "Node_Children child = Node_Children built"
    "Node_Positional child = [] \<or> Node_Children child = []"
    "Node_Tag child = tag" "Node_Name child = name"
    by (cases "Tag_Arg tag"; cases "Node_Positional built")
      (auto simp: Let_def split: if_splits option.splits)
  with b that show thesis by blast
qed

lemma buildField_Inr:
  assumes "buildField k node v ft fv tag name seen = Inr (node', seen')"
  shows "Node_Children node' = Node_Children node"
  using assms by (auto simp: buildField_def Let_def split: option.splits if_splits)

lemma buildFields_Cons_Inr:
  assumes "buildFields k lib v (f # fs) node seen = Inr (node', seen')"
    and "\<not> ignoredField k v f"
  obtains n1 s1 where
    "(if isBranch k f
      then buildChild k lib node (if Tag_Arg (fieldTag f) then ArgumentNode else CommandNode)
             v (ff_field f) (ff_value f) (fieldTag f) (fieldName lib f) seen
      else buildField k node v (ff_field f) (ff_value f) (fieldTag f) (fieldName lib f) seen) =
       Inr (n1, s1)"
    and "buildFields k lib v fs n1 s1 = Inr (node', seen')"
  using assms
  by (auto split: sum.splits if_splits simp del: buildChild.simps buildNode.simps)

subsection \<open>The loop over the positional values\<close>

lemma scanPositional_Inr:
  "scanPositional l i ps = Inr qs \<Longrightarrow>
     qs = map (\<lambda>(j, p). p\<lparr>Value_Position := j\<rparr>) (enumerate i ps)"
  by (induction ps arbitrary: l i qs) (auto split: if_splits sum.splits)

lemma scanPositional_Inl:
  "scanPositional l i ps = Inl e \<Longrightarrow> \<exists>p \<in> set ps. e = RequiredAfterOptional (Value_Name p)"
  by (induction ps arbitrary: l i) (auto split: if_splits sum.splits)

lemma scanPositional_fails_iff:
  "(\<exists>e. scanPositional l i ps = Inl e) \<longleftrightarrow>
     (\<not> l \<and> ps \<noteq> [] \<and> Value_Required (hd ps)) \<or>
     (\<exists>j. Suc j < length ps \<and> \<not> Value_Required (ps ! j) \<and> Value_Required (ps ! Suc j))"
proof (induction ps arbitrary: l i)
  case Nil
  then show ?case by simp
next
  case (Cons p ps)
  have shift:
    "(\<exists>j. Suc j < length (p # ps) \<and> \<not> Value_Required ((p # ps) ! j) \<and>
          Value_Required ((p # ps) ! Suc j)) \<longleftrightarrow>
     (\<not> Value_Required p \<and> ps \<noteq> [] \<and> Value_Required (hd ps)) \<or>
     (\<exists>j. Suc j < length ps \<and> \<not> Value_Required (ps ! j) \<and> Value_Required (ps ! Suc j))"
    (is "?L \<longleftrightarrow> ?A \<or> ?B")
  proof
    assume ?L
    then obtain j where j: "Suc j < length (p # ps)" "\<not> Value_Required ((p # ps) ! j)"
      "Value_Required ((p # ps) ! Suc j)" by blast
    show "?A \<or> ?B"
    proof (cases j)
      case 0
      with j have ?A by (cases ps) auto
      then show ?thesis ..
    next
      case (Suc j')
      with j have ?B by auto
      then show ?thesis ..
    qed
  next
    assume "?A \<or> ?B"
    then show ?L
    proof
      assume ?A
      then have "Suc 0 < length (p # ps) \<and> \<not> Value_Required ((p # ps) ! 0) \<and>
          Value_Required ((p # ps) ! Suc 0)"
        by (cases ps) auto
      then show ?L by blast
    next
      assume ?B
      then obtain j where "Suc j < length ps" "\<not> Value_Required (ps ! j)"
        "Value_Required (ps ! Suc j)" by blast
      then have "Suc (Suc j) < length (p # ps) \<and> \<not> Value_Required ((p # ps) ! Suc j) \<and>
          Value_Required ((p # ps) ! Suc (Suc j))"
        by simp
      then show ?L by blast
    qed
  qed
  show ?case
    unfolding shift using Cons.IH[of "Value_Required p" "Suc i"]
    by (auto split: sum.splits)
qed

lemma positions_enumerate:
  "map Value_Position (map (\<lambda>(j, p). p\<lparr>Value_Position := j\<rparr>) (enumerate i ps)) =
     [i..<i + length ps]"
  by (induction ps arbitrary: i) (auto simp: upt_rec)

lemma buildNode_positions:
  assumes "buildNode k lib v typ seen = Inr (node, seen')"
  shows "map Value_Position (Node_Positional node) = [0..<length (Node_Positional node)]"
proof -
  from assms obtain n1 ps where
    sc: "scanPositional True 0 (Node_Positional n1) = Inr ps" and n: "node = set_Positional ps n1"
    by (auto split: sum.splits prod.splits)
  from scanPositional_Inr[OF sc] have "map Value_Position ps = [0..<length ps]"
    using positions_enumerate[of 0 "Node_Positional n1"] by simp
  with n show ?thesis by simp
qed
subsection \<open>Positions after the promotion of a branch argument\<close>

text \<open>
  C10. The positions are given by \<open>buildNode\<close>, before \<open>buildChild\<close> moves the first
  positional value of an argument branch to \<^verbatim>\<open>child.Argument\<close>, and are not given again: in
  the child that \<open>buildChild\<close> appends, the branch argument has the position 0 and the
  positional values that remain have the positions 1, 2, ... in order.
\<close>

theorem branch_argument_positions:
  "Tag_Arg tag \<and> buildChild k lib node typ v ft fv tag name seen = Inr (node', seen') \<longrightarrow>
     (\<exists>child arg. Node_Children node' = Node_Children node @ [child] \<and>
        Node_Argument child = Some arg \<and> Value_Position arg = 0 \<and>
        map Value_Position (Node_Positional child) =
          [1..<Suc (length (Node_Positional child))])"
proof (intro impI, elim conjE)
  assume arg: "Tag_Arg tag"
    and r: "buildChild k lib node typ v ft fv tag name seen = Inr (node', seen')"
  from r obtain built s where b: "buildNode k lib fv typ seen = Inr (built, s)"
    by (auto split: sum.splits)
  from buildNode_positions[OF b]
  have pos: "map Value_Position (Node_Positional built) = [0..<length (Node_Positional built)]" .
  from r arg b obtain p ps where pp: "Node_Positional built = p # ps"
    by (cases "Node_Positional built") (auto simp: Let_def split: if_splits)
  from pos pp have p0: "Value_Position p = 0"
    and rest: "map Value_Position ps = [1..<Suc (length ps)]"
    by (simp_all add: upt_conv_Cons del: upt_Suc)
  from r arg b pp p0 rest
  show "\<exists>child arg. Node_Children node' = Node_Children node @ [child] \<and>
        Node_Argument child = Some arg \<and> Value_Position arg = 0 \<and>
        map Value_Position (Node_Positional child) = [1..<Suc (length (Node_Positional child))]"
    by (auto simp: Let_def split: if_splits)
qed

text \<open>
  The branch \<^verbatim>\<open>Name\<close> of the examples: its argument \<^verbatim>\<open>name\<close> has the position 0, and
  \<^verbatim>\<open>extra\<close>, the one value that remains, the position 1.
\<close>

theorem branch_argument_positions_witness:
  "Tag_Arg exArgTag \<and> \<not> isl exBranchResult \<and>
   (\<exists>child arg. Node_Children (fst (projr exBranchResult)) = [child] \<and>
      Node_Argument child = Some arg \<and> Value_Position arg = 0 \<and>
      map Value_Position (Node_Positional child) = [1..<Suc (length (Node_Positional child))]) \<and>
   map (\<lambda>c. (map Value_Name (Node_Positional c), map Value_Position (Node_Positional c)))
     (Node_Children (fst (projr exBranchResult))) = [([''extra''], [1])]"
proof -
  have a: "Tag_Arg exArgTag" by code_simp
  have b: "\<not> isl exBranchResult" by code_simp
  then have c: "exBranchResult = Inr (fst (projr exBranchResult), snd (projr exBranchResult))"
    by simp
  have d: "map (\<lambda>c. (map Value_Name (Node_Positional c), map Value_Position (Node_Positional c)))
     (Node_Children (fst (projr exBranchResult))) = [([''extra''], [1])]"
    by code_simp
  from branch_argument_positions[of exArgTag exKong exLib
      "newNode ApplicationNode (Struct ''CLI'' [])" ArgumentNode "Struct ''CLI'' []"
      "\<lparr>SF_Name = ''Name'', SF_Anonymous = False\<rparr>" exBranch "''name''" "{}"
      "fst (projr exBranchResult)" "snd (projr exBranchResult)"] a c
  have "\<exists>child arg. Node_Children (fst (projr exBranchResult)) = [child] \<and>
      Node_Argument child = Some arg \<and> Value_Position arg = 0 \<and>
      map Value_Position (Node_Positional child) = [1..<Suc (length (Node_Positional child))]"
    unfolding exBranchResult_def[symmetric] by simp
  with a b d show ?thesis by blast
qed
subsection \<open>Branch arguments\<close>

text \<open>
  C4. For a field tagged as a positional argument that \<open>buildNode\<close> hands to \<open>buildChild\<close>:
  \<open>buildChild\<close> succeeds only if the node built for the field has a first positional
  value whose name is the name of the branch; then that value is, in the child appended
  to the node, the branch argument and no longer a positional value, and the help of the child
  is the help of the tag or, when the tag has none, the help of that value. With no
  positional value, or a first one of another name, \<open>buildChild\<close> returns the errors of
  lines 202 and 205; an error of \<open>buildNode\<close> is returned as it is.
\<close>

theorem branch_argument_promotion:
  "Tag_Arg tag \<longrightarrow>
     (\<forall>node' seen'. buildChild k lib node typ v ft fv tag name seen = Inr (node', seen') \<longrightarrow>
        (\<exists>built p ps child.
           buildNode k lib fv typ seen = Inr (built, seen') \<and>
           Node_Positional built = p # ps \<and> Value_Name p = name \<and>
           node' = set_Children (Node_Children node @ [child]) node \<and>
           Node_Argument child = Some p \<and> Node_Positional child = ps \<and>
           Node_Help child = (if Tag_Help tag = [] then Value_Help p else Tag_Help tag))) \<and>
     (\<forall>built s. buildNode k lib fv typ seen = Inr (built, s) \<longrightarrow>
        (Node_Positional built = [] \<longrightarrow>
           buildChild k lib node typ v ft fv tag name seen =
             Inl (BranchWithoutPositional name)) \<and>
        (Node_Positional built \<noteq> [] \<and> Value_Name (hd (Node_Positional built)) \<noteq> name \<longrightarrow>
           buildChild k lib node typ v ft fv tag name seen = Inl (BranchNameMismatch name))) \<and>
     (\<forall>e. buildNode k lib fv typ seen = Inl e \<longrightarrow>
        buildChild k lib node typ v ft fv tag name seen = Inl e)"
proof (intro impI conjI allI)
  fix node' seen'
  assume arg: "Tag_Arg tag"
    and r: "buildChild k lib node typ v ft fv tag name seen = Inr (node', seen')"
  from r obtain built where b: "buildNode k lib fv typ seen = Inr (built, seen')"
    by (auto simp: Let_def split: sum.splits if_splits list.splits)
  from r arg b obtain p ps where pp: "Node_Positional built = p # ps"
    by (cases "Node_Positional built") (auto simp: Let_def split: if_splits)
  from r arg b pp have nm: "Value_Name p = name"
    by (auto simp: Let_def split: if_splits)
  show "\<exists>built p ps child.
           buildNode k lib fv typ seen = Inr (built, seen') \<and>
           Node_Positional built = p # ps \<and> Value_Name p = name \<and>
           node' = set_Children (Node_Children node @ [child]) node \<and>
           Node_Argument child = Some p \<and> Node_Positional child = ps \<and>
           Node_Help child = (if Tag_Help tag = [] then Value_Help p else Tag_Help tag)"
    using r arg b pp nm
    by (cases "Tag_Help tag = []") (auto simp: Let_def split: if_splits)
next
  fix built s
  assume "Tag_Arg tag" "buildNode k lib fv typ seen = Inr (built, s)"
    "Node_Positional built = []"
  then show "buildChild k lib node typ v ft fv tag name seen =
      Inl (BranchWithoutPositional name)"
    by simp
next
  fix built s
  assume "Tag_Arg tag" "buildNode k lib fv typ seen = Inr (built, s)"
    "Node_Positional built \<noteq> [] \<and> Value_Name (hd (Node_Positional built)) \<noteq> name"
  then show "buildChild k lib node typ v ft fv tag name seen = Inl (BranchNameMismatch name)"
    by (cases "Node_Positional built") (auto simp: Let_def)
next
  fix e
  assume "buildNode k lib fv typ seen = Inl e"
  then show "buildChild k lib node typ v ft fv tag name seen = Inl e" by simp
qed

text \<open>
  The branch \<^verbatim>\<open>Name\<close> of the examples: \<^verbatim>\<open>name\<close> becomes the argument of the child, \<^verbatim>\<open>extra\<close>
  stays, and the child, whose tag has no help, takes the help of \<^verbatim>\<open>name\<close>. The same
  structure under the name \<^verbatim>\<open>file\<close> is refused.
\<close>

theorem branch_argument_promotion_witness:
  "Tag_Arg exArgTag \<and> \<not> isl exBranchResult \<and>
   (\<exists>built p ps child.
      buildNode exKong exLib exBranch ArgumentNode {} = Inr (built, snd (projr exBranchResult)) \<and>
      Node_Positional built = p # ps \<and> Value_Name p = ''name'' \<and>
      fst (projr exBranchResult) =
        set_Children [child] (newNode ApplicationNode (Struct ''CLI'' [])) \<and>
      Node_Argument child = Some p \<and> Node_Positional child = ps \<and>
      Node_Help child = Value_Help p) \<and>
   map (\<lambda>c. (map_option Value_Name (Node_Argument c), map Value_Name (Node_Positional c),
              Node_Help c))
     (Node_Children (fst (projr exBranchResult))) = [(Some ''name'', [''extra''], ''The name.'')] \<and>
   errorOf (buildChild exKong exLib (newNode ApplicationNode (Struct ''CLI'' [])) ArgumentNode
     (Struct ''CLI'' []) \<lparr>SF_Name = ''File'', SF_Anonymous = False\<rparr> exBranch exArgTag
     ''file'' {}) = Some (BranchNameMismatch ''file'')"
proof -
  have a: "Tag_Arg exArgTag" by code_simp
  have h: "Tag_Help exArgTag = []" by code_simp
  have b: "\<not> isl exBranchResult" by code_simp
  then have c: "exBranchResult = Inr (fst (projr exBranchResult), snd (projr exBranchResult))"
    by simp
  have d: "map (\<lambda>c. (map_option Value_Name (Node_Argument c), map Value_Name (Node_Positional c),
              Node_Help c))
     (Node_Children (fst (projr exBranchResult))) = [(Some ''name'', [''extra''], ''The name.'')]"
    by code_simp
  have e: "errorOf (buildChild exKong exLib (newNode ApplicationNode (Struct ''CLI'' []))
     ArgumentNode (Struct ''CLI'' []) \<lparr>SF_Name = ''File'', SF_Anonymous = False\<rparr> exBranch
     exArgTag ''file'' {}) = Some (BranchNameMismatch ''file'')"
    by code_simp
  from branch_argument_promotion[of exArgTag exKong exLib
      "newNode ApplicationNode (Struct ''CLI'' [])" ArgumentNode "Struct ''CLI'' []"
      "\<lparr>SF_Name = ''Name'', SF_Anonymous = False\<rparr>" exBranch "''name''" "{}"] a
  have "\<forall>node' seen'. exBranchResult = Inr (node', seen') \<longrightarrow>
        (\<exists>built p ps child.
           buildNode exKong exLib exBranch ArgumentNode {} = Inr (built, seen') \<and>
           Node_Positional built = p # ps \<and> Value_Name p = ''name'' \<and>
           node' = set_Children (Node_Children (newNode ApplicationNode (Struct ''CLI'' [])) @ [child])
                     (newNode ApplicationNode (Struct ''CLI'' [])) \<and>
           Node_Argument child = Some p \<and> Node_Positional child = ps \<and>
           Node_Help child = (if Tag_Help exArgTag = [] then Value_Help p else Tag_Help exArgTag))"
    unfolding exBranchResult_def[symmetric] by blast
  with c h have "\<exists>built p ps child.
      buildNode exKong exLib exBranch ArgumentNode {} = Inr (built, snd (projr exBranchResult)) \<and>
      Node_Positional built = p # ps \<and> Value_Name p = ''name'' \<and>
      fst (projr exBranchResult) =
        set_Children [child] (newNode ApplicationNode (Struct ''CLI'' [])) \<and>
      Node_Argument child = Some p \<and> Node_Positional child = ps \<and>
      Node_Help child = Value_Help p"
    by simp
  with a b d e show ?thesis by blast
qed
subsection \<open>Default commands\<close>

lemma buildField_keeps_children:
  "buildField k node v ft fv tag name seen = Inr (node', seen') \<Longrightarrow>
     Node_Children node' = Node_Children node \<and> Node_DefaultCmd node' = Node_DefaultCmd node"
  by (auto simp: buildField_def Let_def split: option.splits if_splits)

lemma buildChild_default_invariant:
  assumes r: "buildChild k lib node typ v ft fv tag name seen = Inr (node', seen')"
    and le: "length (filter isDefaultChild (Node_Children node)) \<le> 1"
    and dc: "(\<exists>c\<in>set (Node_Children node). isDefaultChild c) \<longrightarrow> Node_DefaultCmd node \<noteq> None"
  shows "length (filter isDefaultChild (Node_Children node')) \<le> 1 \<and>
     ((\<exists>c\<in>set (Node_Children node'). isDefaultChild c) \<longrightarrow> Node_DefaultCmd node' \<noteq> None)"
proof -
  from r obtain built where b: "buildNode k lib fv typ seen = Inr (built, seen')"
    by (auto simp: Let_def split: sum.splits if_splits list.splits)
  show ?thesis
  proof (cases "Tag_Arg tag")
    case True
    with r b obtain child where "Node_Children node' = Node_Children node @ [child]"
      "Node_Tag child = tag" "Node_DefaultCmd node' = Node_DefaultCmd node"
      by (auto simp: Let_def split: if_splits list.splits)
    with True le dc show ?thesis by (auto simp: isDefaultChild_def)
  next
    case False
    show ?thesis
    proof (cases "Tag_Default tag = []")
      case True
      with r b False obtain child where "Node_Children node' = Node_Children node @ [child]"
        "Node_Tag child = tag" "Node_DefaultCmd node' = Node_DefaultCmd node"
        by (auto simp: Let_def split: if_splits)
      with True le dc show ?thesis by (auto simp: isDefaultChild_def)
    next
      case d: False
      with r b False have none: "Node_DefaultCmd node = None"
        by (auto simp: Let_def split: if_splits option.splits)
      with dc have no: "filter isDefaultChild (Node_Children node) = []"
        by (auto simp: filter_empty_conv)
      from r b False d none obtain child where "Node_Children node' = Node_Children node @ [child]"
        "Node_DefaultCmd node' = Some child"
        by (auto simp: Let_def split: if_splits)
      with no show ?thesis by auto
    qed
  qed
qed

lemma buildFields_default_invariant:
  "buildFields k lib v flds node seen = Inr (node', seen') \<Longrightarrow>
   length (filter isDefaultChild (Node_Children node)) \<le> 1 \<Longrightarrow>
   ((\<exists>c\<in>set (Node_Children node). isDefaultChild c) \<longrightarrow> Node_DefaultCmd node \<noteq> None) \<Longrightarrow>
   length (filter isDefaultChild (Node_Children node')) \<le> 1 \<and>
     ((\<exists>c\<in>set (Node_Children node'). isDefaultChild c) \<longrightarrow> Node_DefaultCmd node' \<noteq> None)"
proof (induction flds arbitrary: node seen)
  case Nil
  then show ?case by simp
next
  case (Cons f fs)
  show ?case
  proof (cases "ignoredField k v f")
    case True
    with Cons.prems(1) have "buildFields k lib v fs node seen = Inr (node', seen')" by simp
    from Cons.IH[OF this Cons.prems(2,3)] show ?thesis .
  next
    case False
    from buildFields_Cons_Inr[OF Cons.prems(1) False] obtain n1 s1 where
      step: "(if isBranch k f
        then buildChild k lib node (if Tag_Arg (fieldTag f) then ArgumentNode else CommandNode)
               v (ff_field f) (ff_value f) (fieldTag f) (fieldName lib f) seen
        else buildField k node v (ff_field f) (ff_value f) (fieldTag f) (fieldName lib f) seen) =
         Inr (n1, s1)"
      and rest: "buildFields k lib v fs n1 s1 = Inr (node', seen')"
      by blast
    have "length (filter isDefaultChild (Node_Children n1)) \<le> 1 \<and>
       ((\<exists>c\<in>set (Node_Children n1). isDefaultChild c) \<longrightarrow> Node_DefaultCmd n1 \<noteq> None)"
    proof (cases "isBranch k f")
      case True
      with step have "buildChild k lib node (if Tag_Arg (fieldTag f) then ArgumentNode else CommandNode)
               v (ff_field f) (ff_value f) (fieldTag f) (fieldName lib f) seen = Inr (n1, s1)"
        by (simp del: buildChild.simps)
      from buildChild_default_invariant[OF this Cons.prems(2,3)] show ?thesis .
    next
      case False
      with step have "buildField k node v (ff_field f) (ff_value f) (fieldTag f) (fieldName lib f) seen =
         Inr (n1, s1)" by simp
      from buildField_keeps_children[OF this] Cons.prems(2,3) show ?thesis by simp
    qed
    with Cons.IH[OF rest] show ?thesis by blast
  qed
qed

text \<open>
  C8. For a command field whose tag has a default (and is not that of a positional
  argument): when the node has a default command already, \<open>buildChild\<close> fails, with the
  error of line 215 if the child itself could be built; when it has none and the default
  is not \<^verbatim>\<open>withargs\<close>, a child with children or positional values gives the error of
  line 218; and when \<open>buildChild\<close> succeeds, the node had no default command, the child is
  now the default command, and it has neither children nor positional values unless the
  default is \<^verbatim>\<open>withargs\<close>. So a node built by \<open>buildNode\<close> has at most one such child.
\<close>

theorem default_command_rules:
  "(\<not> Tag_Arg tag \<and> Tag_Default tag \<noteq> [] \<longrightarrow>
     (Node_DefaultCmd node \<noteq> None \<longrightarrow>
        (\<exists>e. buildChild k lib node typ v ft fv tag name seen = Inl e) \<and>
        (\<forall>built s. buildNode k lib fv typ seen = Inr (built, s) \<longrightarrow>
           buildChild k lib node typ v ft fv tag name seen = Inl MoreThanOneDefault)) \<and>
     (\<forall>built s. Node_DefaultCmd node = None \<and> Tag_Default tag \<noteq> ''withargs'' \<and>
        buildNode k lib fv typ seen = Inr (built, s) \<and>
        (Node_Children built \<noteq> [] \<or> Node_Positional built \<noteq> []) \<longrightarrow>
        buildChild k lib node typ v ft fv tag name seen = Inl DefaultWithArgs) \<and>
     (\<forall>node' seen'. buildChild k lib node typ v ft fv tag name seen = Inr (node', seen') \<longrightarrow>
        Node_DefaultCmd node = None \<and>
        (\<exists>child. Node_DefaultCmd node' = Some child \<and>
           Node_Children node' = Node_Children node @ [child] \<and>
           (Tag_Default tag = ''withargs'' \<or>
            (Node_Children child = [] \<and> Node_Positional child = []))))) \<and>
   (\<forall>root seen1. buildNode k lib v typ seen = Inr (root, seen1) \<longrightarrow>
      length (filter isDefaultChild (Node_Children root)) \<le> 1)"
proof (intro impI conjI allI; (elim conjE)?)
  assume h: "\<not> Tag_Arg tag" "Tag_Default tag \<noteq> []" "Node_DefaultCmd node \<noteq> None"
  then show "\<exists>e. buildChild k lib node typ v ft fv tag name seen = Inl e"
    by (cases "buildNode k lib fv typ seen") (auto simp: Let_def)
next
  fix built s
  assume "\<not> Tag_Arg tag" "Tag_Default tag \<noteq> []" "Node_DefaultCmd node \<noteq> None"
    "buildNode k lib fv typ seen = Inr (built, s)"
  then show "buildChild k lib node typ v ft fv tag name seen = Inl MoreThanOneDefault"
    by (auto simp: Let_def)
next
  fix built s
  assume "\<not> Tag_Arg tag" "Tag_Default tag \<noteq> []" "Node_DefaultCmd node = None"
    "Tag_Default tag \<noteq> ''withargs''" "buildNode k lib fv typ seen = Inr (built, s)"
    "Node_Children built \<noteq> [] \<or> Node_Positional built \<noteq> []"
  then show "buildChild k lib node typ v ft fv tag name seen = Inl DefaultWithArgs"
    by (auto simp: Let_def)
next
  fix node' seen'
  assume h: "\<not> Tag_Arg tag" "Tag_Default tag \<noteq> []"
    and r: "buildChild k lib node typ v ft fv tag name seen = Inr (node', seen')"
  from r obtain built where b: "buildNode k lib fv typ seen = Inr (built, seen')"
    by (auto simp: Let_def split: sum.splits if_splits list.splits)
  from r h b show "Node_DefaultCmd node = None"
    by (auto simp: Let_def split: if_splits option.splits)
  from r h b show "\<exists>child. Node_DefaultCmd node' = Some child \<and>
           Node_Children node' = Node_Children node @ [child] \<and>
           (Tag_Default tag = ''withargs'' \<or>
            (Node_Children child = [] \<and> Node_Positional child = []))"
    by (auto simp: Let_def split: if_splits option.splits)
next
  fix root seen1
  assume r: "buildNode k lib v typ seen = Inr (root, seen1)"
  then obtain flds v' n1 s1 ps where
    l: "buildFields k lib v flds (newNode typ v) seen = Inr (n1, s1)"
    and n: "root = set_Positional ps n1"
    by (auto split: sum.splits prod.splits)
  from buildFields_default_invariant[OF l] n
  show "length (filter isDefaultChild (Node_Children root)) \<le> 1" by simp
qed

text \<open>
  The examples: \<^verbatim>\<open>Serve\<close> becomes the default command of a new node; a second default
  command \<^verbatim>\<open>Build\<close> on that node is refused; and \<^verbatim>\<open>Run\<close>, a default command with a
  positional value, is refused on a new node.
\<close>

theorem default_command_rules_witness:
  "\<not> Tag_Arg exDefaultTag \<and> Tag_Default exDefaultTag \<noteq> [] \<and> \<not> isl exServeResult \<and>
   (\<exists>child. Node_DefaultCmd (fst (projr exServeResult)) = Some child \<and>
      Node_Children (fst (projr exServeResult)) = [child] \<and>
      Node_Children child = [] \<and> Node_Positional child = []) \<and>
   errorOf (buildChild exKong exLib (fst (projr exServeResult)) CommandNode (Struct ''CLI'' [])
      \<lparr>SF_Name = ''Build'', SF_Anonymous = False\<rparr> (Struct [] []) exDefaultTag ''build''
      (snd (projr exServeResult))) = Some MoreThanOneDefault \<and>
   errorOf (buildChild exKong exLib (newNode ApplicationNode (Struct ''CLI'' [])) CommandNode
      (Struct ''CLI'' []) \<lparr>SF_Name = ''Run'', SF_Anonymous = False\<rparr> exRun exDefaultTag ''run''
      {}) = Some DefaultWithArgs"
proof -
  let ?root = "newNode ApplicationNode (Struct ''CLI'' [])"
  let ?n1 = "fst (projr exServeResult)"
  let ?s1 = "snd (projr exServeResult)"
  have a: "\<not> Tag_Arg exDefaultTag" by code_simp
  have b: "Tag_Default exDefaultTag \<noteq> []" by code_simp
  have w: "Tag_Default exDefaultTag \<noteq> ''withargs''" by code_simp
  have c: "\<not> isl exServeResult" by code_simp
  then have c': "buildChild exKong exLib ?root CommandNode (Struct ''CLI'' [])
      \<lparr>SF_Name = ''Serve'', SF_Anonymous = False\<rparr> (Struct [] []) exDefaultTag ''serve'' {} =
      Inr (?n1, ?s1)"
    unfolding exServeResult_def[symmetric] by simp
  note serve = default_command_rules[of exDefaultTag ?root exKong exLib CommandNode
      "Struct ''CLI'' []" "\<lparr>SF_Name = ''Serve'', SF_Anonymous = False\<rparr>" "Struct [] []"
      "''serve''" "{}", THEN conjunct1, THEN mp, OF conjI[OF a b]]
  from serve[THEN conjunct2, THEN conjunct2, THEN spec, THEN spec, THEN mp, OF c'] w
  have d: "\<exists>child. Node_DefaultCmd ?n1 = Some child \<and> Node_Children ?n1 = [child] \<and>
      Node_Children child = [] \<and> Node_Positional child = []"
    by simp
  then have d': "Node_DefaultCmd ?n1 \<noteq> None" by auto
  have "\<not> isl (buildNode exKong exLib (Struct [] []) CommandNode ?s1)" by code_simp
  then have e: "buildNode exKong exLib (Struct [] []) CommandNode ?s1 =
      Inr (fst (projr (buildNode exKong exLib (Struct [] []) CommandNode ?s1)),
           snd (projr (buildNode exKong exLib (Struct [] []) CommandNode ?s1)))"
    by (simp del: buildNode.simps)
  note build = default_command_rules[of exDefaultTag ?n1 exKong exLib CommandNode
      "Struct ''CLI'' []" "\<lparr>SF_Name = ''Build'', SF_Anonymous = False\<rparr>" "Struct [] []"
      "''build''" ?s1, THEN conjunct1, THEN mp, OF conjI[OF a b]]
  note f = build[THEN conjunct1, THEN mp, OF d', THEN conjunct2, THEN spec, THEN spec, THEN mp,
      OF e]
  have "\<not> isl (buildNode exKong exLib exRun CommandNode {})" by code_simp
  then have g: "buildNode exKong exLib exRun CommandNode {} =
      Inr (fst (projr (buildNode exKong exLib exRun CommandNode {})),
           snd (projr (buildNode exKong exLib exRun CommandNode {})))"
    by (simp del: buildNode.simps)
  have "0 < length (Node_Positional (fst (projr (buildNode exKong exLib exRun CommandNode {}))))"
    by code_simp
  then have h: "Node_Positional (fst (projr (buildNode exKong exLib exRun CommandNode {}))) \<noteq> []"
    by (simp del: buildNode.simps)
  have i: "Node_DefaultCmd ?root = None" by simp
  note run = default_command_rules[of exDefaultTag ?root exKong exLib CommandNode
      "Struct ''CLI'' []" "\<lparr>SF_Name = ''Run'', SF_Anonymous = False\<rparr>" exRun "''run''" "{}",
      THEN conjunct1, THEN mp, OF conjI[OF a b]]
  note j = run[THEN conjunct2, THEN conjunct1, THEN spec, THEN spec, THEN mp,
      OF conjI[OF i conjI[OF w conjI[OF g disjI2[OF h]]]]]
  from a b c d f j show ?thesis
    by (simp add: errorOf_def del: buildChild.simps buildNode.simps)
qed
subsection \<open>The order of the positional values\<close>

text \<open>
  C3. The loop of lines 168 to 176 starts with \<^verbatim>\<open>last\<close> true and the index 0. It returns an
  error exactly when some positional value is required and the one just before it is not
  (so that a first value, and a single one, never gives an error); the error is that of
  line 171, for one of the values. Otherwise every value gets its index as position.
  \<open>buildNode\<close> returns what this loop returns on the positional values that the loop over
  the fields has collected. A positional value built by \<open>buildField\<close> is required unless
  the tag says optional, and the value of a flag is required only if the tag says required.
\<close>

theorem positional_ordering:
  "((\<exists>e. scanPositional True 0 ps = Inl e) \<longleftrightarrow>
      (\<exists>j. Suc j < length ps \<and> \<not> Value_Required (ps ! j) \<and> Value_Required (ps ! Suc j))) \<and>
   (\<forall>e. scanPositional True 0 ps = Inl e \<longrightarrow>
      (\<exists>p\<in>set ps. e = RequiredAfterOptional (Value_Name p))) \<and>
   (\<forall>qs. scanPositional True 0 ps = Inr qs \<longrightarrow>
      qs = map (\<lambda>(j, p). p\<lparr>Value_Position := j\<rparr>) (enumerate 0 ps)) \<and>
   (\<forall>flds v' node seen1.
      flattenedFields v = Inr (flds, v') \<and>
      buildFields k lib v flds (newNode typ v) seen = Inr (node, seen1) \<longrightarrow>
      buildNode k lib v typ seen =
        (case scanPositional True 0 (Node_Positional node) of
           Inl e \<Rightarrow> Inl e
         | Inr qs \<Rightarrow> Inr (set_Positional qs node, unsee (Node_Flags node) seen1))) \<and>
   (\<forall>m. ForNamedValue k (Tag_Type tag) fv = Some m \<and> Tag_Arg tag \<longrightarrow>
      (\<exists>val. buildField k node0 v ft fv tag name seen =
                Inr (set_Positional (Node_Positional node0 @ [val]) node0, seen) \<and>
             Value_Required val = (\<not> Tag_Optional tag))) \<and>
   (\<forall>node' seen'. \<not> Tag_Arg tag \<and>
      buildField k node0 v ft fv tag name seen = Inr (node', seen') \<longrightarrow>
      (\<exists>flag. Node_Flags node' = Node_Flags node0 @ [flag] \<and>
         Value_Required (Flag_Value flag) = Tag_Required tag))"
proof (intro conjI allI impI)
  show "(\<exists>e. scanPositional True 0 ps = Inl e) \<longleftrightarrow>
      (\<exists>j. Suc j < length ps \<and> \<not> Value_Required (ps ! j) \<and> Value_Required (ps ! Suc j))"
    using scanPositional_fails_iff[of True 0 ps] by simp
next
  fix e assume "scanPositional True 0 ps = Inl e"
  then show "\<exists>p\<in>set ps. e = RequiredAfterOptional (Value_Name p)"
    by (rule scanPositional_Inl)
next
  fix qs assume "scanPositional True 0 ps = Inr qs"
  then show "qs = map (\<lambda>(j, p). p\<lparr>Value_Position := j\<rparr>) (enumerate 0 ps)"
    by (rule scanPositional_Inr)
next
  fix flds v' node seen1
  assume "flattenedFields v = Inr (flds, v') \<and>
      buildFields k lib v flds (newNode typ v) seen = Inr (node, seen1)"
  then show "buildNode k lib v typ seen =
        (case scanPositional True 0 (Node_Positional node) of
           Inl e \<Rightarrow> Inl e
         | Inr qs \<Rightarrow> Inr (set_Positional qs node, unsee (Node_Flags node) seen1))"
    by (simp split: sum.splits)
next
  fix m assume "ForNamedValue k (Tag_Type tag) fv = Some m \<and> Tag_Arg tag"
  then show "\<exists>val. buildField k node0 v ft fv tag name seen =
                Inr (set_Positional (Node_Positional node0 @ [val]) node0, seen) \<and>
             Value_Required val = (\<not> Tag_Optional tag)"
    by (auto simp: buildField_def Let_def intro!: exI)
next
  fix node' seen'
  assume "\<not> Tag_Arg tag \<and> buildField k node0 v ft fv tag name seen = Inr (node', seen')"
  then show "\<exists>flag. Node_Flags node' = Node_Flags node0 @ [flag] \<and>
         Value_Required (Flag_Value flag) = Tag_Required tag"
    by (auto simp: buildField_def Let_def split: option.splits if_splits)
qed

text \<open>
  The values \<^verbatim>\<open>src\<close> (required) and \<^verbatim>\<open>dst\<close> (optional): in this order they get the
  positions 0 and 1; in the other order the loop returns the error for \<^verbatim>\<open>src\<close>; and
  \<^verbatim>\<open>dst\<close> alone is accepted.
\<close>

theorem positional_ordering_witness:
  "\<not> isl (scanPositional True 0 [exValue ''src'' True, exValue ''dst'' False]) \<and>
   map (\<lambda>p. (Value_Name p, Value_Position p))
     (projr (scanPositional True 0 [exValue ''src'' True, exValue ''dst'' False])) =
     [(''src'', 0), (''dst'', 1)] \<and>
   scanPositional True 0 [exValue ''dst'' False, exValue ''src'' True] =
     Inl (RequiredAfterOptional ''src'') \<and>
   \<not> isl (scanPositional True 0 [exValue ''dst'' False])"
proof -
  let ?src = "exValue ''src'' True" and ?dst = "exValue ''dst'' False"
  have req: "Value_Required ?src" "\<not> Value_Required ?dst"
    "Value_Name ?src = ''src''" "Value_Name ?dst = ''dst''"
    by (simp_all add: exValue_def)
  have "\<not> (\<exists>j. Suc j < length [?src, ?dst] \<and> \<not> Value_Required ([?src, ?dst] ! j) \<and>
      Value_Required ([?src, ?dst] ! Suc j))"
    using req by (auto simp: less_Suc_eq)
  with positional_ordering[of "[?src, ?dst]", THEN conjunct1]
  have a: "\<not> isl (scanPositional True 0 [?src, ?dst])"
    by (cases "scanPositional True 0 [?src, ?dst]") (auto simp del: scanPositional.simps)
  then have "scanPositional True 0 [?src, ?dst] = Inr (projr (scanPositional True 0 [?src, ?dst]))"
    by (simp del: scanPositional.simps)
  from positional_ordering[of "[?src, ?dst]", THEN conjunct2, THEN conjunct2, THEN conjunct1,
      THEN spec, THEN mp, OF this]
  have b: "map (\<lambda>p. (Value_Name p, Value_Position p))
     (projr (scanPositional True 0 [?src, ?dst])) = [(''src'', 0), (''dst'', 1)]"
    using req by (simp del: scanPositional.simps)
  have "\<exists>j. Suc j < length [?dst, ?src] \<and> \<not> Value_Required ([?dst, ?src] ! j) \<and>
      Value_Required ([?dst, ?src] ! Suc j)"
    using req by (intro exI[of _ 0]) simp
  with positional_ordering[of "[?dst, ?src]", THEN conjunct1]
  obtain e where e: "scanPositional True 0 [?dst, ?src] = Inl e" by blast
  from positional_ordering[of "[?dst, ?src]", THEN conjunct2, THEN conjunct1, THEN spec,
      THEN mp, OF e]
  have "e = RequiredAfterOptional ''dst'' \<or> e = RequiredAfterOptional ''src''"
    using req by auto
  moreover have "scanPositional True 0 [?dst, ?src] \<noteq> Inl (RequiredAfterOptional ''dst'')"
    using req by simp
  ultimately have c: "scanPositional True 0 [?dst, ?src] = Inl (RequiredAfterOptional ''src'')"
    using e by auto
  have "\<not> (\<exists>j. Suc j < length [?dst] \<and> \<not> Value_Required ([?dst] ! j) \<and>
      Value_Required ([?dst] ! Suc j))"
    by simp
  with positional_ordering[of "[?dst]", THEN conjunct1]
  have d: "\<not> isl (scanPositional True 0 [?dst])"
    by (cases "scanPositional True 0 [?dst]") (auto simp del: scanPositional.simps)
  from a b c d show ?thesis by blast
qed
subsection \<open>Pointers to commands and embedded structures\<close>

text \<open>
  C5, as the claim states it, fails: the structure \<^verbatim>\<open>CLI\<close> of the examples has a pointer to
  a \<^verbatim>\<open>ServeCmd\<close> with the port 8080 in its command field, and after \<open>flattenedFields\<close> the
  field points to a new \<^verbatim>\<open>ServeCmd\<close> with the port 0. Line 65 tests the tag and the kind of
  the field only, not whether the pointer is nil.
\<close>

theorem lazy_instantiation_counterexample:
  "fieldValues exServePresent = [Ptr exServeZero (Some exServeSet)] \<and>
   fieldValues (snd (projr (flattenedFields exServePresent))) =
     [Ptr exServeZero (Some exServeZero)] \<and>
   map ff_value (fst (projr (flattenedFields exServePresent))) = [exServeZero] \<and>
   exServeSet \<noteq> exServeZero"
  by (simp add: exServePresent_def exField_def exCmdTag_def newEmptyTag_def exServeSet_def
      exServeZero_def)

text \<open>
  C5, amended. For a field that is not ignored, whose tag says command or embed and whose
  value is a pointer, the loop of \<open>flattenedFields\<close> does the same whatever the pointer
  points to, nil or not: when it succeeds, the field can be set and points afterwards to
  the value \<open>z\<close> that \<^verbatim>\<open>reflect.New\<close> made, as the flattening of \<open>z\<close> leaves it; this is \<open>z\<close>
  itself, and the value of the one flattened field of this field, when the field is
  neither anonymous nor tagged embed.
\<close>

theorem lazy_instantiation_overwrites:
  "\<not> Tag_Ignored tag \<and> (Tag_Cmd tag \<or> Tag_Embed tag) \<longrightarrow>
     flattenLoop (FieldOf ft cs (Inr tag) (Ptr z p) # fs) =
       flattenLoop (FieldOf ft cs (Inr tag) (Ptr z None) # fs) \<and>
     (\<forall>out fs'. flattenLoop (FieldOf ft cs (Inr tag) (Ptr z p) # fs) = Inr (out, fs') \<longrightarrow>
        cs \<and>
        (\<exists>sub z' out' fs''.
           flattenField ft True tag z = Inr (sub, z') \<and> flattenLoop fs = Inr (out', fs'') \<and>
           out = sub @ out' \<and> fs' = FieldOf ft cs (Inr tag) (Ptr z (Some z')) # fs'' \<and>
           (\<not> SF_Anonymous ft \<and> \<not> Tag_Embed tag \<longrightarrow>
              z' = z \<and> sub = [\<lparr>ff_field = ft, ff_value = z, ff_tag = tag\<rparr>])))"
  by (auto split: sum.splits prod.splits if_splits)

text \<open>
  The structure \<^verbatim>\<open>CLI\<close> of the examples: with the pointer to the port 8080 and with a nil
  pointer, the field points to the new \<^verbatim>\<open>ServeCmd\<close> afterwards.
\<close>

theorem lazy_instantiation_overwrites_witness:
  "\<not> Tag_Ignored exCmdTag \<and> Tag_Cmd exCmdTag \<and>
   flattenLoop [exField ''Serve'' exCmdTag (Ptr exServeZero (Some exServeSet))] =
     flattenLoop [exField ''Serve'' exCmdTag (Ptr exServeZero None)] \<and>
   flattenLoop [exField ''Serve'' exCmdTag (Ptr exServeZero None)] =
     Inr ([\<lparr>ff_field = \<lparr>SF_Name = ''Serve'', SF_Anonymous = False\<rparr>, ff_value = exServeZero,
            ff_tag = exCmdTag\<rparr>],
          [exField ''Serve'' exCmdTag (Ptr exServeZero (Some exServeZero))])"
proof -
  have a: "\<not> Tag_Ignored exCmdTag" "Tag_Cmd exCmdTag"
    by (simp_all add: exCmdTag_def newEmptyTag_def)
  from lazy_instantiation_overwrites[of exCmdTag "\<lparr>SF_Name = ''Serve'', SF_Anonymous = False\<rparr>"
      True exServeZero "Some exServeSet" "[]", THEN mp, OF conjI[OF a(1) disjI1[OF a(2)]],
      THEN conjunct1]
  have b: "flattenLoop [exField ''Serve'' exCmdTag (Ptr exServeZero (Some exServeSet))] =
     flattenLoop [exField ''Serve'' exCmdTag (Ptr exServeZero None)]"
    by (simp only: exField_def)
  have c: "flattenLoop [exField ''Serve'' exCmdTag (Ptr exServeZero None)] =
     Inr ([\<lparr>ff_field = \<lparr>SF_Name = ''Serve'', SF_Anonymous = False\<rparr>, ff_value = exServeZero,
            ff_tag = exCmdTag\<rparr>],
          [exField ''Serve'' exCmdTag (Ptr exServeZero (Some exServeZero))])"
    by (simp add: exField_def a exCmdTag_def newEmptyTag_def)
  from a b c show ?thesis by blast
qed
subsection \<open>Fields that cannot be set\<close>

text \<open>
  A field that is not anonymous, whose tag does not say embed, that cannot be set, and
  that is not a pointer tagged as a command, is left out and left as it is: the loop of
  \<open>flattenedFields\<close> returns for the structure what it returns for the fields after it,
  the same list or the same error. An ignored field is left out in the same way.
\<close>

theorem unsettable_field_omitted:
  "(\<not> SF_Anonymous ft \<and> \<not> Tag_Embed tag \<and> \<not> cs \<and> \<not> (Tag_Cmd tag \<and> isPtr fv)) \<or>
   Tag_Ignored tag \<longrightarrow>
     flattenLoop (FieldOf ft cs (Inr tag) fv # fs) =
       (case flattenLoop fs of
          Inl e \<Rightarrow> Inl e
        | Inr (out, fs') \<Rightarrow> Inr (out, FieldOf ft cs (Inr tag) fv # fs'))"
  by (cases fv) (auto split: sum.splits prod.splits)

text \<open>
  \<^verbatim>\<open>CLI { port int; Host string }\<close>: the field \<^verbatim>\<open>port\<close>, which is not exported, gives no entry
  and no error; the list has the one entry of \<^verbatim>\<open>Host\<close>.
\<close>

theorem unsettable_field_omitted_witness:
  "\<not> SF_Anonymous \<lparr>SF_Name = ''port'', SF_Anonymous = False\<rparr> \<and> \<not> Tag_Embed newEmptyTag \<and>
   \<not> (Tag_Cmd newEmptyTag \<and> isPtr (Scalar ''0'')) \<and>
   flattenLoop [FieldOf \<lparr>SF_Name = ''port'', SF_Anonymous = False\<rparr> False (Inr newEmptyTag)
                  (Scalar ''0''),
                exField ''Host'' newEmptyTag (Scalar [])] =
     Inr ([\<lparr>ff_field = \<lparr>SF_Name = ''Host'', SF_Anonymous = False\<rparr>, ff_value = Scalar [],
            ff_tag = newEmptyTag\<rparr>],
          [FieldOf \<lparr>SF_Name = ''port'', SF_Anonymous = False\<rparr> False (Inr newEmptyTag)
             (Scalar ''0''),
           exField ''Host'' newEmptyTag (Scalar [])])"
proof -
  have a: "\<not> SF_Anonymous \<lparr>SF_Name = ''port'', SF_Anonymous = False\<rparr> \<and>
      \<not> Tag_Embed newEmptyTag \<and> \<not> False \<and> \<not> (Tag_Cmd newEmptyTag \<and> isPtr (Scalar ''0''))"
    by (simp add: newEmptyTag_def)
  have b: "flattenLoop [exField ''Host'' newEmptyTag (Scalar [])] =
      Inr ([\<lparr>ff_field = \<lparr>SF_Name = ''Host'', SF_Anonymous = False\<rparr>, ff_value = Scalar [],
             ff_tag = newEmptyTag\<rparr>],
           [exField ''Host'' newEmptyTag (Scalar [])])"
    by (simp add: exField_def newEmptyTag_def)
  from unsettable_field_omitted[of "\<lparr>SF_Name = ''port'', SF_Anonymous = False\<rparr>" newEmptyTag
      False "Scalar ''0''" "[exField ''Host'' newEmptyTag (Scalar [])]", THEN mp, OF disjI1[OF a]]
  have "flattenLoop [FieldOf \<lparr>SF_Name = ''port'', SF_Anonymous = False\<rparr> False (Inr newEmptyTag)
                  (Scalar ''0''),
                exField ''Host'' newEmptyTag (Scalar [])] =
     Inr ([\<lparr>ff_field = \<lparr>SF_Name = ''Host'', SF_Anonymous = False\<rparr>, ff_value = Scalar [],
            ff_tag = newEmptyTag\<rparr>],
          [FieldOf \<lparr>SF_Name = ''port'', SF_Anonymous = False\<rparr> False (Inr newEmptyTag)
             (Scalar ''0''),
           exField ''Host'' newEmptyTag (Scalar [])])"
    by (simp only: b sum.case prod.case)
  with a show ?thesis by simp
qed
text \<open>
  C9. The field \<^verbatim>\<open>serve\<close> of \<^verbatim>\<open>CLI\<close> is neither anonymous nor tagged embed, and cannot be
  set. When it holds a pointer and is tagged as a command, line 67 calls \<^verbatim>\<open>Set\<close> on it
  before line 70 asks \<^verbatim>\<open>CanSet\<close>, and \<^verbatim>\<open>Set\<close> panics: the structure is not flattened and
  the field is not left out silently. When it holds the structure itself, under the
  same tag, line 70 leaves it out and the list is empty.
\<close>

theorem unsettable_command_pointer_panics:
  "flattenedFields exServeUnexported = Inl (Panic ''Set'') \<and>
   flattenedFields exServeUnexportedValue = Inr ([], exServeUnexportedValue)"
  by (simp add: exServeUnexported_def exServeUnexportedValue_def exCmdTag_def newEmptyTag_def
      exServeZero_def)

text \<open>The panic, read from the theorem.\<close>

theorem unsettable_command_pointer_panics_witness:
  "errorOf (flattenedFields exServeUnexported) = Some (Panic ''Set'')"
  using unsettable_command_pointer_panics by (simp add: errorOf_def del: flattenedFields.simps)

subsection \<open>Tags of embedded structures\<close>

text \<open>
  C7. For a field that is anonymous or tagged embed and is not a plugin list, the entries
  that \<open>flattenField\<close> returns are the entries of the flattened value of the field (of
  what it holds, for an interface), in order and with the same fields and values; the
  group of an entry is its own unless that is empty, and then the group of the tag of
  the embedding field; its prefix and its environment prefix are those of that tag
  followed by its own; its variables are its own and, where it has none, those of that
  tag. The name that \<open>buildNode\<close> computes for an entry is then the prefix of the
  embedding field followed by the name it computes for the entry of the embedded
  structure, so that the prefixes of nested embedded structures stand in the order from
  the outer to the inner one.
\<close>

theorem embedded_tag_composition:
  "(SF_Anonymous ft \<or> Tag_Embed tag) \<and> \<not> isPlugins fv \<and>
   flattenField ft cs tag fv = Inr (out, fv') \<longrightarrow>
     (\<exists>sub v'.
        flattenedFields (case fv of Interface p \<Rightarrow> p | _ \<Rightarrow> fv) = Inr (sub, v') \<and>
        length out = length sub \<and>
        (\<forall>i<length sub.
           ff_field (out ! i) = ff_field (sub ! i) \<and> ff_value (out ! i) = ff_value (sub ! i) \<and>
           Tag_Group (ff_tag (out ! i)) =
             (if Tag_Group (ff_tag (sub ! i)) = [] then Tag_Group tag
              else Tag_Group (ff_tag (sub ! i))) \<and>
           Tag_Prefix (ff_tag (out ! i)) = Tag_Prefix tag @ Tag_Prefix (ff_tag (sub ! i)) \<and>
           Tag_EnvPrefix (ff_tag (out ! i)) =
             Tag_EnvPrefix tag @ Tag_EnvPrefix (ff_tag (sub ! i)) \<and>
           (\<forall>x. Tag_Vars (ff_tag (out ! i)) x =
                 (case Tag_Vars (ff_tag (sub ! i)) x of
                    Some y \<Rightarrow> Some y
                  | None \<Rightarrow> Tag_Vars tag x)) \<and>
           fieldName lib (out ! i) = Tag_Prefix tag @ fieldName lib (sub ! i)))"
proof (intro impI, elim conjE)
  assume e: "SF_Anonymous ft \<or> Tag_Embed tag" and np: "\<not> isPlugins fv"
    and r: "flattenField ft cs tag fv = Inr (out, fv')"
  from e np r obtain sub v' where
    s: "flattenedFields (case fv of Interface p \<Rightarrow> p | _ \<Rightarrow> fv) = Inr (sub, v')"
    and o: "out = map (composeTag tag) sub"
    by (cases fv) (auto split: sum.splits prod.splits if_splits)
  have "\<forall>i<length sub.
           ff_field (out ! i) = ff_field (sub ! i) \<and> ff_value (out ! i) = ff_value (sub ! i) \<and>
           Tag_Group (ff_tag (out ! i)) =
             (if Tag_Group (ff_tag (sub ! i)) = [] then Tag_Group tag
              else Tag_Group (ff_tag (sub ! i))) \<and>
           Tag_Prefix (ff_tag (out ! i)) = Tag_Prefix tag @ Tag_Prefix (ff_tag (sub ! i)) \<and>
           Tag_EnvPrefix (ff_tag (out ! i)) =
             Tag_EnvPrefix tag @ Tag_EnvPrefix (ff_tag (sub ! i)) \<and>
           (\<forall>x. Tag_Vars (ff_tag (out ! i)) x =
                 (case Tag_Vars (ff_tag (sub ! i)) x of
                    Some y \<Rightarrow> Some y
                  | None \<Rightarrow> Tag_Vars tag x)) \<and>
           fieldName lib (out ! i) = Tag_Prefix tag @ fieldName lib (sub ! i)"
    unfolding o
    by (auto simp: fieldName_def composeTag_def CloneWith_def map_add_def
        split: option.splits)
  with s o show "\<exists>sub v'.
        flattenedFields (case fv of Interface p \<Rightarrow> p | _ \<Rightarrow> fv) = Inr (sub, v') \<and>
        length out = length sub \<and>
        (\<forall>i<length sub.
           ff_field (out ! i) = ff_field (sub ! i) \<and> ff_value (out ! i) = ff_value (sub ! i) \<and>
           Tag_Group (ff_tag (out ! i)) =
             (if Tag_Group (ff_tag (sub ! i)) = [] then Tag_Group tag
              else Tag_Group (ff_tag (sub ! i))) \<and>
           Tag_Prefix (ff_tag (out ! i)) = Tag_Prefix tag @ Tag_Prefix (ff_tag (sub ! i)) \<and>
           Tag_EnvPrefix (ff_tag (out ! i)) =
             Tag_EnvPrefix tag @ Tag_EnvPrefix (ff_tag (sub ! i)) \<and>
           (\<forall>x. Tag_Vars (ff_tag (out ! i)) x =
                 (case Tag_Vars (ff_tag (sub ! i)) x of
                    Some y \<Rightarrow> Some y
                  | None \<Rightarrow> Tag_Vars tag x)) \<and>
           fieldName lib (out ! i) = Tag_Prefix tag @ fieldName lib (sub ! i))"
    by (intro exI[of _ sub] exI[of _ v']) simp
qed

text \<open>
  The examples: the entry of \<^verbatim>\<open>Host\<close> under the field \<^verbatim>\<open>DB\<close> has the name \<^verbatim>\<open>db-host\<close>, which
  is the name of the flag of the compiled application; with the second embedded structure
  between them the flag has the name \<^verbatim>\<open>db-primary-host\<close>.
\<close>

theorem embedded_tag_composition_witness:
  "Tag_Embed exDBTag \<and> \<not> isPlugins exDBConfig \<and>
   \<not> isl (flattenField \<lparr>SF_Name = ''DB'', SF_Anonymous = False\<rparr> True exDBTag exDBConfig) \<and>
   map (fieldName exLib)
     (fst (projr (flattenField \<lparr>SF_Name = ''DB'', SF_Anonymous = False\<rparr> True exDBTag
        exDBConfig))) = [''db-'' @ ''host''] \<and>
   flagNames (build exKong exLib exEmbed) = [''db-host''] \<and>
   flagNames (build exKong exLib exEmbedNested) = [''db-primary-host'']"
proof -
  let ?R = "flattenField \<lparr>SF_Name = ''DB'', SF_Anonymous = False\<rparr> True exDBTag exDBConfig"
  have a: "Tag_Embed exDBTag" by code_simp
  have b: "\<not> isPlugins exDBConfig" by code_simp
  have p: "Tag_Prefix exDBTag = ''db-''" by code_simp
  have c: "\<not> isl ?R" by code_simp
  then have c': "?R = Inr (fst (projr ?R), snd (projr ?R))"
    by (simp del: flattenField.simps)
  have l: "length (fst (projr ?R)) = 1" by code_simp
  have s: "map (fieldName exLib) (fst (projr (flattenedFields exDBConfig))) = [''host'']"
    by code_simp
  have k: "(case exDBConfig of Interface p \<Rightarrow> p | _ \<Rightarrow> exDBConfig) = exDBConfig"
    by (simp add: exDBConfig_def)
  from embedded_tag_composition[of "\<lparr>SF_Name = ''DB'', SF_Anonymous = False\<rparr>" exDBTag
      exDBConfig True "fst (projr ?R)" "snd (projr ?R)" exLib, THEN mp,
      OF conjI[OF disjI2[OF a] conjI[OF b c']]]
  obtain sub v' where
    f: "flattenedFields exDBConfig = Inr (sub, v')"
    and n: "length (fst (projr ?R)) = length sub"
    and i: "\<forall>i<length sub. fieldName exLib (fst (projr ?R) ! i) =
        Tag_Prefix exDBTag @ fieldName exLib (sub ! i)"
    unfolding k by blast
  from n l obtain e where sub: "sub = [e]"
    by (cases sub) (auto simp del: flattenField.simps)
  from l obtain o1 where out: "fst (projr ?R) = [o1]"
    by (cases "fst (projr ?R)") (auto simp del: flattenField.simps)
  from s f sub have "fieldName exLib e = ''host''" by (simp del: flattenedFields.simps)
  with i sub out p have d: "map (fieldName exLib) (fst (projr ?R)) = [''db-'' @ ''host'']"
    by (simp del: flattenField.simps)
  have g: "flagNames (build exKong exLib exEmbed) = [''db-host'']" by code_simp
  have h: "flagNames (build exKong exLib exEmbedNested) = [''db-primary-host'']" by code_simp
  from a b c d g h show ?thesis by blast
qed
subsection \<open>Global flags\<close>

text \<open>
  C6. \<open>build\<close> puts the name of each global flag into the map as it is (line 25), and
  \<open>buildField\<close> looks up and stores the name of a flag after two dashes (lines 256 and 259),
  as the loop of line 161 deletes it. So the name of a global flag is never found: with
  the global flag \<^verbatim>\<open>help\<close>, the structure \<^verbatim>\<open>CLI { Help bool }\<close> is compiled without an error,
  and the root node has two flags of the name \<^verbatim>\<open>help\<close>.
\<close>

theorem global_flag_name_redeclared:
  "\<not> isl (build exKongHelp exLib exHelpCLI) \<and>
   map (\<lambda>flag. Value_Name (Flag_Value flag)) (extraFlags exKongHelp) = [''help''] \<and>
   flagNames (build exKongHelp exLib exHelpCLI) = [''help'', ''help'']"
  by code_simp

text \<open>The two flags of the root node, read from the theorem.\<close>

theorem global_flag_name_redeclared_witness:
  "flagNames (build exKongHelp exLib exHelpCLI) = [''help'', ''help'']"
  using global_flag_name_redeclared by (rule conjunct2[THEN conjunct2])
subsection \<open>Children and positional values\<close>

lemma noMix_iff:
  "noMix n \<longleftrightarrow>
     (Node_Positional n = [] \<or> Node_Children n = []) \<and> (\<forall>c\<in>set (Node_Children n). noMix c)"
  by (cases n) simp

lemma children_noMix:
  "(\<forall>node seen'. buildNode k lib v typ seen = Inr (node, seen') \<longrightarrow>
      (\<forall>c\<in>set (Node_Children node). noMix c))"
  "(\<forall>c\<in>set (Node_Children node1). noMix c) \<longrightarrow>
     (\<forall>node' seen'. buildFields k lib v1 flds node1 seen1 = Inr (node', seen') \<longrightarrow>
        (\<forall>c\<in>set (Node_Children node'). noMix c))"
  "(\<forall>c\<in>set (Node_Children node2). noMix c) \<longrightarrow>
     (\<forall>node' seen'. buildChild k lib node2 typ2 v2 ft fv tag name seen2 = Inr (node', seen') \<longrightarrow>
        (\<forall>c\<in>set (Node_Children node'). noMix c))"
proof (induction k lib v "typ" seen and k lib v1 flds node1 seen1
    and k lib node2 typ2 v2 ft fv tag name seen2
    rule: buildNode_buildFields_buildChild.induct)
  case (1 k lib v ty seenFlags)
  show ?case
  proof (intro allI impI)
    fix node seen'
    assume "buildNode k lib v ty seenFlags = Inr (node, seen')"
    then obtain flds v' n1 s1 ps where
      f: "flattenedFields v = Inr (flds, v')"
      and l: "buildFields k lib v flds (newNode ty v) seenFlags = Inr (n1, s1)"
      and n: "node = set_Positional ps n1"
      by (rule buildNode_Inr)
    from 1[OF f refl] l have "\<forall>c\<in>set (Node_Children n1). noMix c" by simp
    with n show "\<forall>c\<in>set (Node_Children node). noMix c" by simp
  qed
next
  case (2 k lib v node seenFlags)
  show ?case by simp
next
  case (3 k lib v f fs node seenFlags)
  show ?case
  proof (intro allI impI)
    fix node' seen'
    assume inv: "\<forall>c\<in>set (Node_Children node). noMix c"
      and r: "buildFields k lib v (f # fs) node seenFlags = Inr (node', seen')"
    show "\<forall>c\<in>set (Node_Children node'). noMix c"
    proof (cases "ignoredField k v f")
      case True
      with r have "buildFields k lib v fs node seenFlags = Inr (node', seen')" by simp
      with 3(1)[OF True] inv show ?thesis by blast
    next
      case False
      from buildFields_Cons_Inr[OF r False] obtain n1 s1 where
        step: "(if isBranch k f
          then buildChild k lib node (if Tag_Arg (fieldTag f) then ArgumentNode else CommandNode)
                 v (ff_field f) (ff_value f) (fieldTag f) (fieldName lib f) seenFlags
          else buildField k node v (ff_field f) (ff_value f) (fieldTag f) (fieldName lib f)
                 seenFlags) = Inr (n1, s1)"
        and rest: "buildFields k lib v fs n1 s1 = Inr (node', seen')"
        by blast
      have "\<forall>c\<in>set (Node_Children n1). noMix c"
      proof (cases "isBranch k f")
        case True
        with step have "buildChild k lib node
            (if Tag_Arg (fieldTag f) then ArgumentNode else CommandNode)
            v (ff_field f) (ff_value f) (fieldTag f) (fieldName lib f) seenFlags = Inr (n1, s1)"
          by (simp del: buildChild.simps)
        with 3(2)[OF False True] inv show ?thesis by blast
      next
        case False
        with step have "buildField k node v (ff_field f) (ff_value f) (fieldTag f)
            (fieldName lib f) seenFlags = Inr (n1, s1)"
          by simp
        from buildField_Inr[OF this] inv show ?thesis by simp
      qed
      with 3(3)[OF False step refl] rest show ?thesis by blast
    qed
  qed
next
  case (4 k lib node ty v ft fv tag name seenFlags)
  show ?case
  proof (intro allI impI)
    fix node' seen'
    assume inv: "\<forall>c\<in>set (Node_Children node). noMix c"
      and r: "buildChild k lib node ty v ft fv tag name seenFlags = Inr (node', seen')"
    from r obtain built child where
      b: "buildNode k lib fv ty seenFlags = Inr (built, seen')"
      and c: "Node_Children node' = Node_Children node @ [child]"
      and cc: "Node_Children child = Node_Children built"
      and m: "Node_Positional child = [] \<or> Node_Children child = []"
      by (rule buildChild_Inr)
    from 4 b have "\<forall>c\<in>set (Node_Children built). noMix c" by blast
    with cc m have "noMix child" by (subst noMix_iff) simp
    with inv c show "\<forall>c\<in>set (Node_Children node'). noMix c" by simp
  qed
qed

text \<open>
  C2. In the tree of a compiled application no node, the root or a descendant, has both
  children and positional values; so have the children of any node that \<open>buildNode\<close>
  returns. A root for which \<open>buildNode\<close> returns both gives the error of line 33 in
  \<open>build\<close>; a child for which \<open>buildNode\<close> returns both, or has both left after the
  first positional value has become its branch argument, gives the error of line 225 in
  \<open>buildChild\<close> (for a default command without \<^verbatim>\<open>withargs\<close>, the error of line 218).
\<close>

theorem children_positionals_exclusive:
  "(\<forall>app. build k lib ast = Inr app \<longrightarrow> noMix (App_Node app)) \<and>
   (\<forall>node seen'. buildNode k lib v ty seen = Inr (node, seen') \<longrightarrow>
      (\<forall>c\<in>set (Node_Children node). noMix c)) \<and>
   (\<forall>node seen'. isPtr ast \<and> isStruct (Indirect ast) \<and>
      buildNode k lib (Indirect ast) ApplicationNode
        ((\<lambda>flag. Value_Name (Flag_Value flag)) ` set (extraFlags k)) = Inr (node, seen') \<and>
      Node_Positional node \<noteq> [] \<and> Node_Children node \<noteq> [] \<longrightarrow>
      build k lib ast = Inl MixRoot) \<and>
   (\<forall>built s. buildNode k lib fv ty seen = Inr (built, s) \<and>
      Node_Children built \<noteq> [] \<and>
      (if Tag_Arg tag
       then Node_Positional built \<noteq> [] \<and> Value_Name (hd (Node_Positional built)) = name \<and>
            tl (Node_Positional built) \<noteq> []
       else Node_Positional built \<noteq> []) \<longrightarrow>
      buildChild k lib node ty v ft fv tag name seen =
        (if \<not> Tag_Arg tag \<and> Tag_Default tag \<noteq> []
         then (if Node_DefaultCmd node \<noteq> None then Inl MoreThanOneDefault
               else if Tag_Default tag \<noteq> ''withargs'' then Inl DefaultWithArgs
               else Inl MixBranch)
         else Inl MixBranch))"
proof (intro conjI allI impI)
  fix app
  assume r: "build k lib ast = Inr app"
  then obtain node seen' where
    b: "buildNode k lib (Indirect ast) ApplicationNode
          ((\<lambda>flag. Value_Name (Flag_Value flag)) ` set (extraFlags k)) = Inr (node, seen')"
    and m: "Node_Positional node = [] \<or> Node_Children node = []"
    and a: "App_Node app = set_Tag (newEmptyTag\<lparr>Tag_Vars := vars k\<rparr>)
              (set_Flags (extraFlags k @ Node_Flags node) node)"
    by (auto simp: build_def Let_def simp del: buildNode.simps split: if_splits sum.splits)
  from children_noMix(1) b have "\<forall>c\<in>set (Node_Children node). noMix c" by blast
  with m a show "noMix (App_Node app)" by (subst noMix_iff) simp
next
  fix node seen'
  assume "buildNode k lib v ty seen = Inr (node, seen')"
  with children_noMix(1) show "\<forall>c\<in>set (Node_Children node). noMix c" by blast
next
  fix node seen'
  assume "isPtr ast \<and> isStruct (Indirect ast) \<and>
      buildNode k lib (Indirect ast) ApplicationNode
        ((\<lambda>flag. Value_Name (Flag_Value flag)) ` set (extraFlags k)) = Inr (node, seen') \<and>
      Node_Positional node \<noteq> [] \<and> Node_Children node \<noteq> []"
  then show "build k lib ast = Inl MixRoot"
    by (simp add: build_def Let_def del: buildNode.simps)
next
  fix built s
  assume h: "buildNode k lib fv ty seen = Inr (built, s) \<and>
      Node_Children built \<noteq> [] \<and>
      (if Tag_Arg tag
       then Node_Positional built \<noteq> [] \<and> Value_Name (hd (Node_Positional built)) = name \<and>
            tl (Node_Positional built) \<noteq> []
       else Node_Positional built \<noteq> [])"
  then show "buildChild k lib node ty v ft fv tag name seen =
        (if \<not> Tag_Arg tag \<and> Tag_Default tag \<noteq> []
         then (if Node_DefaultCmd node \<noteq> None then Inl MoreThanOneDefault
               else if Tag_Default tag \<noteq> ''withargs'' then Inl DefaultWithArgs
               else Inl MixBranch)
         else Inl MixBranch)"
    by (cases "Node_Positional built"; cases "Tag_Arg tag")
      (auto simp: Let_def split: option.splits)
qed

text \<open>
  The examples: \<^verbatim>\<open>CLI\<close> with the command \<^verbatim>\<open>Run\<close> is compiled, and no node of its tree has
  both; with the positional value \<^verbatim>\<open>Path\<close> beside the command, \<open>build\<close> returns the error
  of line 33; and the command with \<^verbatim>\<open>File\<close> and \<^verbatim>\<open>Sub\<close> gives the error of line 225 in
  \<open>buildChild\<close>.
\<close>

theorem children_positionals_exclusive_witness:
  "\<not> isl (build exKong exLib exRunCLI) \<and>
   noMix (App_Node (projr (build exKong exLib exRunCLI))) \<and>
   map (\<lambda>c. (Node_Name c, map Value_Name (Node_Positional c)))
     (Node_Children (App_Node (projr (build exKong exLib exRunCLI)))) = [(''run'', [''file''])] \<and>
   build exKong exLib exMixRootCLI = Inl MixRoot \<and>
   buildChild exKong exLib (newNode ApplicationNode (Struct ''CLI'' [])) CommandNode
     (Struct ''CLI'' []) \<lparr>SF_Name = ''Run'', SF_Anonymous = False\<rparr> exMixBranch exCmdTag ''run''
     {} = Inl MixBranch"
proof -
  have "\<not> isl (build exKong exLib exRunCLI)" by code_simp
  then have a: "build exKong exLib exRunCLI = Inr (projr (build exKong exLib exRunCLI))"
    by simp
  note ok = children_positionals_exclusive[of exKong exLib exRunCLI, THEN conjunct1, THEN spec,
      THEN mp, OF a]
  have b: "map (\<lambda>c. (Node_Name c, map Value_Name (Node_Positional c)))
     (Node_Children (App_Node (projr (build exKong exLib exRunCLI)))) = [(''run'', [''file''])]"
    by code_simp
  let ?seeds = "(\<lambda>flag. Value_Name (Flag_Value flag)) ` set (extraFlags exKong)"
  let ?B = "buildNode exKong exLib (Indirect exMixRootCLI) ApplicationNode ?seeds"
  have p: "isPtr exMixRootCLI" "isStruct (Indirect exMixRootCLI)" by code_simp+
  have "\<not> isl ?B" by code_simp
  then have c: "?B = Inr (fst (projr ?B), snd (projr ?B))" by (simp del: buildNode.simps)
  have "0 < length (Node_Positional (fst (projr ?B)))" "0 < length (Node_Children (fst (projr ?B)))"
    by code_simp+
  then have d: "Node_Positional (fst (projr ?B)) \<noteq> []" "Node_Children (fst (projr ?B)) \<noteq> []"
    by (simp_all del: buildNode.simps)
  note root = children_positionals_exclusive[of exKong exLib exMixRootCLI, THEN conjunct2,
      THEN conjunct2, THEN conjunct1, THEN spec, THEN spec, THEN mp,
      OF conjI[OF p(1) conjI[OF p(2) conjI[OF c conjI[OF d(1) d(2)]]]]]
  let ?C = "buildNode exKong exLib exMixBranch CommandNode {}"
  have t: "\<not> Tag_Arg exCmdTag" "Tag_Default exCmdTag = []" by code_simp+
  have "\<not> isl ?C" by code_simp
  then have e: "?C = Inr (fst (projr ?C), snd (projr ?C))" by (simp del: buildNode.simps)
  have "0 < length (Node_Positional (fst (projr ?C)))" "0 < length (Node_Children (fst (projr ?C)))"
    by code_simp+
  then have f: "Node_Positional (fst (projr ?C)) \<noteq> []" "Node_Children (fst (projr ?C)) \<noteq> []"
    by (simp_all del: buildNode.simps)
  from t f have g: "if Tag_Arg exCmdTag
       then Node_Positional (fst (projr ?C)) \<noteq> [] \<and>
            Value_Name (hd (Node_Positional (fst (projr ?C)))) = ''run'' \<and>
            tl (Node_Positional (fst (projr ?C))) \<noteq> []
       else Node_Positional (fst (projr ?C)) \<noteq> []"
    by (simp del: buildNode.simps)
  from children_positionals_exclusive[where k = exKong and lib = exLib and fv = exMixBranch
      and ty = CommandNode and seen = "{}" and tag = exCmdTag and name = "''run''"
      and node = "newNode ApplicationNode (Struct ''CLI'' [])" and v = "Struct ''CLI'' []"
      and ft = "\<lparr>SF_Name = ''Run'', SF_Anonymous = False\<rparr>", THEN conjunct2,
      THEN conjunct2, THEN conjunct2, THEN spec, THEN spec, THEN mp,
      OF conjI[OF e conjI[OF f(2) g]]] t
  have h: "buildChild exKong exLib (newNode ApplicationNode (Struct ''CLI'' [])) CommandNode
     (Struct ''CLI'' []) \<lparr>SF_Name = ''Run'', SF_Anonymous = False\<rparr> exMixBranch exCmdTag ''run''
     {} = Inl MixBranch"
    by (simp del: buildChild.simps buildNode.simps)
  from \<open>\<not> isl (build exKong exLib exRunCLI)\<close> ok b root h show ?thesis by blast
qed
subsection \<open>The names of flags along a path\<close>

lemma keysScoped_iff:
  "keysScoped S n \<longleftrightarrow>
     distinct (concat (map flagKeys (Node_Flags n))) \<and>
     set (concat (map flagKeys (Node_Flags n))) \<inter> S = {} \<and>
     (\<forall>c\<in>set (Node_Children n). keysScoped S c)"
  by (cases n) simp

lemma keysScoped_mono: "keysScoped T n \<Longrightarrow> S \<subseteq> T \<Longrightarrow> keysScoped S n"
  by (induction S n rule: keysScoped.induct) auto

lemma distinct_keys_names:
  "distinct (concat (map flagKeys fl)) \<Longrightarrow>
     distinct (map (\<lambda>flag. Value_Name (Flag_Value flag)) fl) \<and>
     distinct (filter (\<lambda>r. r \<noteq> 0) (map Flag_Short fl))"
proof (induction fl)
  case Nil
  then show ?case by simp
next
  case (Cons f fl)
  then have d: "distinct (concat (map flagKeys fl))"
    and x: "set (flagKeys f) \<inter> set (concat (map flagKeys fl)) = {}"
    by auto
  have 1: "Value_Name (Flag_Value f) \<notin> (\<lambda>flag. Value_Name (Flag_Value flag)) ` set fl"
  proof
    assume "Value_Name (Flag_Value f) \<in> (\<lambda>flag. Value_Name (Flag_Value flag)) ` set fl"
    then obtain g where g: "g \<in> set fl" "Value_Name (Flag_Value g) = Value_Name (Flag_Value f)"
      by auto
    then have "''--'' @ Value_Name (Flag_Value f) \<in> set (concat (map flagKeys fl))"
      by (auto simp: flagKeys_def intro!: bexI[of _ g])
    with x show False by (auto simp: flagKeys_def)
  qed
  have 2: "Flag_Short f \<noteq> 0 \<Longrightarrow> Flag_Short f \<notin> set (map Flag_Short fl)"
  proof
    assume nz: "Flag_Short f \<noteq> 0" and "Flag_Short f \<in> set (map Flag_Short fl)"
    then obtain g where g: "g \<in> set fl" "Flag_Short g = Flag_Short f" by auto
    with nz have "''-'' @ runeString (Flag_Short f) \<in> set (concat (map flagKeys fl))"
      by (auto simp: flagKeys_def intro!: bexI[of _ g])
    with x nz show False by (auto simp: flagKeys_def)
  qed
  from Cons.IH[OF d] 1 2 show ?case by auto
qed

lemma keysScoped_flagsScoped: "keysScoped S n \<Longrightarrow> flagsScoped S n"
proof (induction S n rule: keysScoped.induct)
  case (1 S ty nm hl dt gr hid flags ps children df tg tag al ar)
  then have d: "distinct (concat (map flagKeys flags))"
    and x: "set (concat (map flagKeys flags)) \<inter> S = {}"
    and c: "\<forall>c\<in>set children. flagsScoped S c"
    by auto
  from x have "\<forall>flag\<in>set flags.
         ''--'' @ Value_Name (Flag_Value flag) \<notin> S \<and>
         (Flag_Short flag \<noteq> 0 \<longrightarrow> ''-'' @ runeString (Flag_Short flag) \<notin> S)"
    by (fastforce simp: flagKeys_def)
  with distinct_keys_names[OF d] c show ?case by simp
qed

lemma unsee_keys: "unsee fl S = S - set (concat (map flagKeys fl))"
  by (induction fl arbitrary: S) (auto simp: flagKeys_def Let_def)

lemma buildField_keys:
  assumes "buildField k node v ft fv tag name seen = Inr (node', seen')"
  shows "Node_Children node' = Node_Children node \<and>
     (\<exists>new. Node_Flags node' = Node_Flags node @ new \<and>
        distinct (concat (map flagKeys new)) \<and> set (concat (map flagKeys new)) \<inter> seen = {} \<and>
        seen' = seen \<union> set (concat (map flagKeys new)))"
proof (cases "Tag_Arg tag")
  case True
  with assms have "Node_Children node' = Node_Children node" "Node_Flags node' = Node_Flags node @ []"
    "seen' = seen"
    by (auto simp: buildField_def Let_def split: option.splits if_splits)
  then show ?thesis by (intro conjI exI[of _ "[]"]) simp_all
next
  case False
  with assms obtain flag where
    "Node_Children node' = Node_Children node" "Node_Flags node' = Node_Flags node @ [flag]"
    "distinct (flagKeys flag)" "set (flagKeys flag) \<inter> seen = {}"
    "seen' = seen \<union> set (flagKeys flag)"
    by (auto simp: buildField_def Let_def flagKeys_def insert_commute
        split: option.splits if_splits)
  then show ?thesis by (intro conjI exI[of _ "[flag]"]) simp_all
qed

lemma keys_scoping:
  "(\<forall>node seen'. buildNode k lib v ty seen = Inr (node, seen') \<longrightarrow>
      seen' = seen \<and> keysScoped seen node)"
  "(\<forall>S0 node' seen'. keysInv S0 node1 seen1 \<and>
      buildFields k lib v1 flds node1 seen1 = Inr (node', seen') \<longrightarrow> keysInv S0 node' seen')"
  "(\<forall>node' seen'. buildChild k lib node2 ty2 v2 ft fv tag name seen2 = Inr (node', seen') \<longrightarrow>
      seen' = seen2 \<and> Node_Flags node' = Node_Flags node2 \<and>
      (\<exists>child. Node_Children node' = Node_Children node2 @ [child] \<and> keysScoped seen2 child))"
proof (induction k lib v ty seen and k lib v1 flds node1 seen1
    and k lib node2 ty2 v2 ft fv tag name seen2
    rule: buildNode_buildFields_buildChild.induct)
  case (1 k lib v ty seenFlags)
  show ?case
  proof (intro allI impI)
    fix node seen'
    assume "buildNode k lib v ty seenFlags = Inr (node, seen')"
    then obtain flds v' n1 s1 ps where
      f: "flattenedFields v = Inr (flds, v')"
      and l: "buildFields k lib v flds (newNode ty v) seenFlags = Inr (n1, s1)"
      and n: "node = set_Positional ps n1" and s: "seen' = unsee (Node_Flags n1) s1"
      by (rule buildNode_Inr)
    have "keysInv seenFlags (newNode ty v) seenFlags" by (simp add: keysInv_def)
    with 1[OF f refl] l have i: "keysInv seenFlags n1 s1" by blast
    with s have "seen' = seenFlags" by (auto simp: keysInv_def unsee_keys)
    moreover from i n have "keysScoped seenFlags node"
      by (subst keysScoped_iff) (simp add: keysInv_def)
    ultimately show "seen' = seenFlags \<and> keysScoped seenFlags node" ..
  qed
next
  case (2 k lib v node seenFlags)
  show ?case by simp
next
  case (3 k lib v f fs node seenFlags)
  show ?case
  proof (intro allI impI, elim conjE)
    fix S0 node' seen'
    assume inv: "keysInv S0 node seenFlags"
      and r: "buildFields k lib v (f # fs) node seenFlags = Inr (node', seen')"
    show "keysInv S0 node' seen'"
    proof (cases "ignoredField k v f")
      case True
      with r have "buildFields k lib v fs node seenFlags = Inr (node', seen')" by simp
      with 3(1)[OF True] inv show ?thesis by blast
    next
      case False
      from buildFields_Cons_Inr[OF r False] obtain n1 s1 where
        step: "(if isBranch k f
          then buildChild k lib node (if Tag_Arg (fieldTag f) then ArgumentNode else CommandNode)
                 v (ff_field f) (ff_value f) (fieldTag f) (fieldName lib f) seenFlags
          else buildField k node v (ff_field f) (ff_value f) (fieldTag f) (fieldName lib f)
                 seenFlags) = Inr (n1, s1)"
        and rest: "buildFields k lib v fs n1 s1 = Inr (node', seen')"
        by blast
      have "keysInv S0 n1 s1"
      proof (cases "isBranch k f")
        case True
        with step have "buildChild k lib node
            (if Tag_Arg (fieldTag f) then ArgumentNode else CommandNode)
            v (ff_field f) (ff_value f) (fieldTag f) (fieldName lib f) seenFlags = Inr (n1, s1)"
          by (simp del: buildChild.simps)
        with 3(2)[OF False True] obtain child where
          c: "s1 = seenFlags" "Node_Flags n1 = Node_Flags node"
          "Node_Children n1 = Node_Children node @ [child]" "keysScoped seenFlags child"
          by blast
        from inv have "S0 \<subseteq> seenFlags" by (auto simp: keysInv_def)
        with c(4) have "keysScoped S0 child" by (rule keysScoped_mono)
        with inv c show ?thesis by (simp add: keysInv_def)
      next
        case False
        with step have "buildField k node v (ff_field f) (ff_value f) (fieldTag f)
            (fieldName lib f) seenFlags = Inr (n1, s1)"
          by simp
        from buildField_keys[OF this] obtain new where
          n: "Node_Children n1 = Node_Children node" "Node_Flags n1 = Node_Flags node @ new"
          "distinct (concat (map flagKeys new))"
          "set (concat (map flagKeys new)) \<inter> seenFlags = {}"
          "s1 = seenFlags \<union> set (concat (map flagKeys new))"
          by blast
        with inv show ?thesis by (auto simp: keysInv_def)
      qed
      with 3(3)[OF False step refl] rest show ?thesis by blast
    qed
  qed
next
  case (4 k lib node ty v ft fv tag name seenFlags)
  show ?case
  proof (intro allI impI)
    fix node' seen'
    assume r: "buildChild k lib node ty v ft fv tag name seenFlags = Inr (node', seen')"
    from r obtain built child where
      b: "buildNode k lib fv ty seenFlags = Inr (built, seen')"
      and c: "Node_Children node' = Node_Children node @ [child]"
      and fl: "Node_Flags node' = Node_Flags node"
      and cf: "Node_Flags child = Node_Flags built"
      and cc: "Node_Children child = Node_Children built"
      by (rule buildChild_Inr)
    from 4 b have s: "seen' = seenFlags" and k: "keysScoped seenFlags built" by blast+
    from k cf cc have "keysScoped seenFlags child"
      by (subst keysScoped_iff, subst (asm) keysScoped_iff) simp
    with s fl c show "seen' = seenFlags \<and> Node_Flags node' = Node_Flags node \<and>
      (\<exists>child. Node_Children node' = Node_Children node @ [child] \<and> keysScoped seenFlags child)"
      by blast
  qed
qed

lemma flagsScoped_iff:
  "flagsScoped S n \<longleftrightarrow>
     distinct (map (\<lambda>flag. Value_Name (Flag_Value flag)) (Node_Flags n)) \<and>
     distinct (filter (\<lambda>r. r \<noteq> 0) (map Flag_Short (Node_Flags n))) \<and>
     (\<forall>flag\<in>set (Node_Flags n).
        ''--'' @ Value_Name (Flag_Value flag) \<notin> S \<and>
        (Flag_Short flag \<noteq> 0 \<longrightarrow> ''-'' @ runeString (Flag_Short flag) \<notin> S)) \<and>
     (\<forall>c\<in>set (Node_Children n). flagsScoped S c)"
  by (cases n) simp

lemma buildFields_keys:
  "buildFields k lib v flds node seen = Inr (node', seen') \<Longrightarrow>
     \<exists>new. Node_Flags node' = Node_Flags node @ new \<and>
       seen' = seen \<union> set (concat (map flagKeys new))"
proof (induction flds arbitrary: node seen)
  case Nil
  then show ?case by simp
next
  case (Cons f fs)
  show ?case
  proof (cases "ignoredField k v f")
    case True
    with Cons.prems have "buildFields k lib v fs node seen = Inr (node', seen')" by simp
    from Cons.IH[OF this] show ?thesis .
  next
    case False
    from buildFields_Cons_Inr[OF Cons.prems False] obtain n1 s1 where
      step: "(if isBranch k f
        then buildChild k lib node (if Tag_Arg (fieldTag f) then ArgumentNode else CommandNode)
               v (ff_field f) (ff_value f) (fieldTag f) (fieldName lib f) seen
        else buildField k node v (ff_field f) (ff_value f) (fieldTag f) (fieldName lib f) seen) =
         Inr (n1, s1)"
      and rest: "buildFields k lib v fs n1 s1 = Inr (node', seen')"
      by blast
    have "\<exists>new. Node_Flags n1 = Node_Flags node @ new \<and>
        s1 = seen \<union> set (concat (map flagKeys new))"
    proof (cases "isBranch k f")
      case True
      with step have "buildChild k lib node
          (if Tag_Arg (fieldTag f) then ArgumentNode else CommandNode)
          v (ff_field f) (ff_value f) (fieldTag f) (fieldName lib f) seen = Inr (n1, s1)"
        by (simp del: buildChild.simps)
      with keys_scoping(3) have "s1 = seen" "Node_Flags n1 = Node_Flags node" by blast+
      then show ?thesis by (intro exI[of _ "[]"]) simp
    next
      case False
      with step have "buildField k node v (ff_field f) (ff_value f) (fieldTag f)
          (fieldName lib f) seen = Inr (n1, s1)"
        by simp
      from buildField_keys[OF this] show ?thesis by blast
    qed
    then obtain new1 where 1: "Node_Flags n1 = Node_Flags node @ new1"
      "s1 = seen \<union> set (concat (map flagKeys new1))" by blast
    from Cons.IH[OF rest] obtain new2 where 2: "Node_Flags node' = Node_Flags n1 @ new2"
      "seen' = s1 \<union> set (concat (map flagKeys new2))" by blast
    from 1 2 show ?thesis by (intro exI[of _ "new1 @ new2"]) auto
  qed
qed

lemma buildFields_append:
  "buildFields k lib v (pre @ rest) node seen = Inr r \<Longrightarrow>
     \<exists>n1 s1. buildFields k lib v pre node seen = Inr (n1, s1) \<and>
       buildFields k lib v rest n1 s1 = Inr r"
proof (induction pre arbitrary: node seen)
  case Nil
  then show ?case by simp
next
  case (Cons f pre)
  show ?case
  proof (cases "ignoredField k v f")
    case True
    with Cons.prems have "buildFields k lib v (pre @ rest) node seen = Inr r" by simp
    from Cons.IH[OF this] True show ?thesis by simp
  next
    case False
    obtain node' seen' where r: "r = (node', seen')" by (cases r)
    from Cons.prems r have "buildFields k lib v (f # (pre @ rest)) node seen = Inr (node', seen')"
      by simp
    from buildFields_Cons_Inr[OF this False] obtain n0 s0 where
      step: "(if isBranch k f
        then buildChild k lib node (if Tag_Arg (fieldTag f) then ArgumentNode else CommandNode)
               v (ff_field f) (ff_value f) (fieldTag f) (fieldName lib f) seen
        else buildField k node v (ff_field f) (ff_value f) (fieldTag f) (fieldName lib f) seen) =
         Inr (n0, s0)"
      and rest: "buildFields k lib v (pre @ rest) n0 s0 = Inr (node', seen')"
      by blast
    from Cons.IH[OF rest[folded r]] obtain n1 s1 where
      1: "buildFields k lib v pre n0 s0 = Inr (n1, s1)"
      and 2: "buildFields k lib v rest n1 s1 = Inr r"
      by blast
    from False step 1 have "buildFields k lib v (f # pre) node seen = Inr (n1, s1)"
      by (simp del: buildChild.simps buildNode.simps)
    with 2 show ?thesis by blast
  qed
qed

lemma buildFields_children:
  "buildFields k lib v flds node seen = Inr (node', seen') \<Longrightarrow>
     \<exists>more. Node_Children node' = Node_Children node @ more"
proof (induction flds arbitrary: node seen)
  case Nil
  then show ?case by simp
next
  case (Cons f fs)
  show ?case
  proof (cases "ignoredField k v f")
    case True
    with Cons.prems have "buildFields k lib v fs node seen = Inr (node', seen')" by simp
    from Cons.IH[OF this] show ?thesis .
  next
    case False
    from buildFields_Cons_Inr[OF Cons.prems False] obtain n1 s1 where
      step: "(if isBranch k f
        then buildChild k lib node (if Tag_Arg (fieldTag f) then ArgumentNode else CommandNode)
               v (ff_field f) (ff_value f) (fieldTag f) (fieldName lib f) seen
        else buildField k node v (ff_field f) (ff_value f) (fieldTag f) (fieldName lib f) seen) =
         Inr (n1, s1)"
      and rest: "buildFields k lib v fs n1 s1 = Inr (node', seen')"
      by blast
    have "\<exists>more. Node_Children n1 = Node_Children node @ more"
    proof (cases "isBranch k f")
      case True
      with step have "buildChild k lib node
          (if Tag_Arg (fieldTag f) then ArgumentNode else CommandNode)
          v (ff_field f) (ff_value f) (fieldTag f) (fieldName lib f) seen = Inr (n1, s1)"
        by (simp del: buildChild.simps)
      then obtain built child where "Node_Children n1 = Node_Children node @ [child]"
        by (rule buildChild_Inr)
      then show ?thesis by blast
    next
      case False
      with step have "buildField k node v (ff_field f) (ff_value f) (fieldTag f)
          (fieldName lib f) seen = Inr (n1, s1)"
        by simp
      from buildField_Inr[OF this] show ?thesis by simp
    qed
    with Cons.IH[OF rest] show ?thesis by auto
  qed
qed

lemma branch_scoped_after_prefix:
  assumes r: "buildFields k lib v (pre @ f # post) node seen = Inr (node', seen')"
    and ni: "\<not> ignoredField k v f" and br: "isBranch k f"
  shows "\<exists>n1 new rest child more.
     buildFields k lib v pre node seen = Inr (n1, seen \<union> set (concat (map flagKeys new))) \<and>
     Node_Flags n1 = Node_Flags node @ new \<and> Node_Flags node' = Node_Flags node @ new @ rest \<and>
     Node_Children node' = Node_Children n1 @ child # more \<and>
     Node_Name child = fieldName lib f \<and>
     keysScoped (seen \<union> set (concat (map flagKeys new))) child"
proof -
  from buildFields_append[OF r] obtain n1 s1 where
    p: "buildFields k lib v pre node seen = Inr (n1, s1)"
    and q: "buildFields k lib v (f # post) n1 s1 = Inr (node', seen')"
    by blast
  from buildFields_keys[OF p] obtain new where
    n: "Node_Flags n1 = Node_Flags node @ new" "s1 = seen \<union> set (concat (map flagKeys new))"
    by blast
  from buildFields_Cons_Inr[OF q ni] br obtain n2 s2 where
    c: "buildChild k lib n1 (if Tag_Arg (fieldTag f) then ArgumentNode else CommandNode)
          v (ff_field f) (ff_value f) (fieldTag f) (fieldName lib f) s1 = Inr (n2, s2)"
    and rest: "buildFields k lib v post n2 s2 = Inr (node', seen')"
    by (auto simp del: buildChild.simps buildNode.simps)
  from c obtain built child where
    ch: "Node_Children n2 = Node_Children n1 @ [child]" "Node_Name child = fieldName lib f"
    by (rule buildChild_Inr)
  from keys_scoping(3) c obtain child' where
    "Node_Children n2 = Node_Children n1 @ [child']" "keysScoped s1 child'"
    by blast
  with ch have ks: "keysScoped s1 child" by simp
  from buildFields_children[OF rest] ch obtain more where
    m: "Node_Children node' = Node_Children n1 @ child # more" by auto
  from buildFields_keys[OF q] n obtain rest where
    "Node_Flags node' = Node_Flags node @ new @ rest" by auto
  with p n ch ks m show ?thesis by blast
qed

text \<open>
  C1, as the claim states it, fails for a flag of an ancestor that is declared after the
  branch: in \<^verbatim>\<open>CLI { Serve struct { Port } `cmd:""`; Port }\<close> the flag of the command is
  stored and deleted again before the flag of the root is looked up, so the structure is
  compiled, and the root and its child \<^verbatim>\<open>serve\<close> both have a flag \<^verbatim>\<open>port\<close> with the short
  name \<^verbatim>\<open>p\<close> (the rune 112).
\<close>

theorem flag_scoping_counterexample:
  "\<not> isl (build exKong exLib exFlagLastCLI) \<and>
   flagsOf (App_Node (projr (build exKong exLib exFlagLastCLI))) = [(''port'', 112)] \<and>
   childFlags (build exKong exLib exFlagLastCLI) = [(''serve'', [(''port'', 112)])]"
  by code_simp

text \<open>
  C1, amended. \<open>buildNode\<close> returns the map as it was given, and in the tree that it
  returns the flags of one node have different names and different short names, and no
  flag has a name or a short name that was in the map when the construction of the tree
  began. In the loop over the fields the map is the one given and the keys of the flags
  that the node has declared so far. So when the loop comes to a branch after the fields
  \<open>pre\<close>, the child that \<open>buildChild\<close> appends has, in its whole tree, no name and no
  short name of the given map nor of a flag that the fields \<open>pre\<close> have declared on the
  node; these flags are the first flags of the node that the loop returns. The same
  holds of the node that \<open>buildNode\<close> returns, for each branch among its flattened
  fields. \<open>buildChild\<close> returns the map as it was. \<open>buildField\<close> refuses a flag whose
  name, or short name, is in the map, with the errors of lines 257 and 262. For an
  application, the root without the global flags has no name of the map of their names.
\<close>

theorem flag_names_scoped:
  "(\<forall>root seen'. buildNode k lib v ty seen = Inr (root, seen') \<longrightarrow>
      seen' = seen \<and> flagsScoped seen root) \<and>
   (\<forall>node' seen'. buildChild k lib node ty v ft fv tag name seen = Inr (node', seen') \<longrightarrow>
      seen' = seen \<and> Node_Flags node' = Node_Flags node \<and>
      (\<exists>child. Node_Children node' = Node_Children node @ [child] \<and> flagsScoped seen child)) \<and>
   (\<forall>node' seen'. buildFields k lib v flds node seen = Inr (node', seen') \<longrightarrow>
      (\<exists>new. Node_Flags node' = Node_Flags node @ new \<and>
         seen' = seen \<union> set (concat (map flagKeys new)))) \<and>
   (\<forall>m. ForNamedValue k (Tag_Type tag) fv = Some m \<and> \<not> Tag_Arg tag \<longrightarrow>
      (''--'' @ name \<in> seen \<longrightarrow>
         buildField k node v ft fv tag name seen = Inl (DuplicateFlag name)) \<and>
      (''--'' @ name \<notin> seen \<and> Tag_Short tag \<noteq> 0 \<and>
       ''-'' @ runeString (Tag_Short tag) \<in> insert (''--'' @ name) seen \<longrightarrow>
         buildField k node v ft fv tag name seen = Inl (DuplicateShortFlag (Tag_Short tag)))) \<and>
   (\<forall>app. build k lib ast = Inr app \<longrightarrow>
      flagsScoped ((\<lambda>flag. Value_Name (Flag_Value flag)) ` set (extraFlags k))
        (set_Flags (drop (length (extraFlags k)) (Node_Flags (App_Node app))) (App_Node app))) \<and>
   (\<forall>pre f post node' seen'.
      buildFields k lib v (pre @ f # post) node seen = Inr (node', seen') \<and>
      \<not> ignoredField k v f \<and> isBranch k f \<longrightarrow>
      (\<exists>n1 new rest child more.
         buildFields k lib v pre node seen =
           Inr (n1, seen \<union> set (concat (map flagKeys new))) \<and>
         Node_Flags n1 = Node_Flags node @ new \<and>
         Node_Flags node' = Node_Flags node @ new @ rest \<and>
         Node_Children node' = Node_Children n1 @ child # more \<and>
         Node_Name child = fieldName lib f \<and>
         flagsScoped (seen \<union> set (concat (map flagKeys new))) child)) \<and>
   (\<forall>pre f post v' root seen'.
      flattenedFields v = Inr (pre @ f # post, v') \<and>
      buildNode k lib v ty seen = Inr (root, seen') \<and>
      \<not> ignoredField k v f \<and> isBranch k f \<longrightarrow>
      (\<exists>n1 s1 rest child.
         buildFields k lib v pre (newNode ty v) seen = Inr (n1, s1) \<and>
         Node_Flags root = Node_Flags n1 @ rest \<and>
         child \<in> set (Node_Children root) \<and> Node_Name child = fieldName lib f \<and>
         flagsScoped (seen \<union> set (concat (map flagKeys (Node_Flags n1)))) child))"
proof (intro conjI allI impI)
  fix root seen'
  assume "buildNode k lib v ty seen = Inr (root, seen')"
  with keys_scoping(1) have "seen' = seen" "keysScoped seen root" by blast+
  then show "seen' = seen" "flagsScoped seen root"
    by (simp_all add: keysScoped_flagsScoped)
next
  fix node' seen'
  assume "buildChild k lib node ty v ft fv tag name seen = Inr (node', seen')"
  with keys_scoping(3) obtain child where
    c: "seen' = seen" "Node_Flags node' = Node_Flags node"
    "Node_Children node' = Node_Children node @ [child]" "keysScoped seen child"
    by blast
  then show "seen' = seen" "Node_Flags node' = Node_Flags node"
    "\<exists>child. Node_Children node' = Node_Children node @ [child] \<and> flagsScoped seen child"
    by (auto intro: keysScoped_flagsScoped)
next
  fix node' seen'
  assume "buildFields k lib v flds node seen = Inr (node', seen')"
  then show "\<exists>new. Node_Flags node' = Node_Flags node @ new \<and>
         seen' = seen \<union> set (concat (map flagKeys new))"
    by (rule buildFields_keys)
next
  fix m
  assume "ForNamedValue k (Tag_Type tag) fv = Some m \<and> \<not> Tag_Arg tag" "''--'' @ name \<in> seen"
  then show "buildField k node v ft fv tag name seen = Inl (DuplicateFlag name)"
    by (simp add: buildField_def)
next
  fix m
  assume "ForNamedValue k (Tag_Type tag) fv = Some m \<and> \<not> Tag_Arg tag"
    "''--'' @ name \<notin> seen \<and> Tag_Short tag \<noteq> 0 \<and>
       ''-'' @ runeString (Tag_Short tag) \<in> insert (''--'' @ name) seen"
  then show "buildField k node v ft fv tag name seen = Inl (DuplicateShortFlag (Tag_Short tag))"
    by (simp add: buildField_def Let_def)
next
  fix app
  let ?seeds = "(\<lambda>flag. Value_Name (Flag_Value flag)) ` set (extraFlags k)"
  assume "build k lib ast = Inr app"
  then obtain root seen' where
    b: "buildNode k lib (Indirect ast) ApplicationNode ?seeds = Inr (root, seen')"
    and a: "App_Node app = set_Tag (newEmptyTag\<lparr>Tag_Vars := vars k\<rparr>)
              (set_Flags (extraFlags k @ Node_Flags root) root)"
    by (auto simp: build_def Let_def simp del: buildNode.simps split: if_splits sum.splits)
  from keys_scoping(1) b have "keysScoped ?seeds root" by blast
  then have "flagsScoped ?seeds root" by (rule keysScoped_flagsScoped)
  with a show "flagsScoped ?seeds
      (set_Flags (drop (length (extraFlags k)) (Node_Flags (App_Node app))) (App_Node app))"
    by (subst flagsScoped_iff, subst (asm) flagsScoped_iff) simp
next
  fix pre f post node' seen'
  assume "buildFields k lib v (pre @ f # post) node seen = Inr (node', seen') \<and>
      \<not> ignoredField k v f \<and> isBranch k f"
  then have r: "buildFields k lib v (pre @ f # post) node seen = Inr (node', seen')"
    and ni: "\<not> ignoredField k v f" and br: "isBranch k f"
    by blast+
  from branch_scoped_after_prefix[OF r ni br] obtain n1 new rest child more where
    "buildFields k lib v pre node seen = Inr (n1, seen \<union> set (concat (map flagKeys new)))"
    "Node_Flags n1 = Node_Flags node @ new" "Node_Flags node' = Node_Flags node @ new @ rest"
    "Node_Children node' = Node_Children n1 @ child # more"
    "Node_Name child = fieldName lib f"
    "keysScoped (seen \<union> set (concat (map flagKeys new))) child"
    by blast
  then show "\<exists>n1 new rest child more.
         buildFields k lib v pre node seen =
           Inr (n1, seen \<union> set (concat (map flagKeys new))) \<and>
         Node_Flags n1 = Node_Flags node @ new \<and>
         Node_Flags node' = Node_Flags node @ new @ rest \<and>
         Node_Children node' = Node_Children n1 @ child # more \<and>
         Node_Name child = fieldName lib f \<and>
         flagsScoped (seen \<union> set (concat (map flagKeys new))) child"
    by (blast intro: keysScoped_flagsScoped)
next
  fix pre f post v' root seen'
  assume "flattenedFields v = Inr (pre @ f # post, v') \<and>
      buildNode k lib v ty seen = Inr (root, seen') \<and>
      \<not> ignoredField k v f \<and> isBranch k f"
  then have fl: "flattenedFields v = Inr (pre @ f # post, v')"
    and b: "buildNode k lib v ty seen = Inr (root, seen')"
    and ni: "\<not> ignoredField k v f" and br: "isBranch k f"
    by blast+
  from b obtain flds v'' n2 s2 ps where
    f2: "flattenedFields v = Inr (flds, v'')"
    and l: "buildFields k lib v flds (newNode ty v) seen = Inr (n2, s2)"
    and n: "root = set_Positional ps n2"
    by (rule buildNode_Inr)
  from fl f2 have "flds = pre @ f # post" by simp
  with l have r: "buildFields k lib v (pre @ f # post) (newNode ty v) seen = Inr (n2, s2)"
    by simp
  from branch_scoped_after_prefix[OF r ni br] obtain n1 new rest child more where
    p: "buildFields k lib v pre (newNode ty v) seen =
          Inr (n1, seen \<union> set (concat (map flagKeys new)))"
    and q: "Node_Flags n1 = Node_Flags (newNode ty v) @ new"
    "Node_Flags n2 = Node_Flags (newNode ty v) @ new @ rest"
    "Node_Children n2 = Node_Children n1 @ child # more"
    "Node_Name child = fieldName lib f"
    "keysScoped (seen \<union> set (concat (map flagKeys new))) child"
    by blast
  from q have "Node_Flags n1 = new" "Node_Flags root = Node_Flags n1 @ rest"
    "child \<in> set (Node_Children root)"
    "flagsScoped (seen \<union> set (concat (map flagKeys (Node_Flags n1)))) child"
    using n by (simp_all add: keysScoped_flagsScoped)
  with p q(4) show "\<exists>n1 s1 rest child.
         buildFields k lib v pre (newNode ty v) seen = Inr (n1, s1) \<and>
         Node_Flags root = Node_Flags n1 @ rest \<and>
         child \<in> set (Node_Children root) \<and> Node_Name child = fieldName lib f \<and>
         flagsScoped (seen \<union> set (concat (map flagKeys (Node_Flags n1)))) child"
    by blast
qed

text \<open>
  The examples: the commands \<^verbatim>\<open>serve\<close> and \<^verbatim>\<open>build\<close>, neither an ancestor of the other,
  both declare \<^verbatim>\<open>port\<close> and \<^verbatim>\<open>p\<close>, and the application is compiled; a command that
  declares \<^verbatim>\<open>port\<close> after the root has declared it is refused, and so is one that declares
  another flag with the short name \<^verbatim>\<open>p\<close>; and in \<^verbatim>\<open>CLI\<close> with \<^verbatim>\<open>Port\<close> before the command
  \<^verbatim>\<open>Serve\<close>, the child \<^verbatim>\<open>serve\<close> has no name of the flag \<^verbatim>\<open>port\<close> of the root.
\<close>

theorem flag_names_scoped_witness:
  "\<not> isl (build exKong exLib exSiblingsCLI) \<and>
   flagsScoped {}
     (set_Flags (drop 0 (Node_Flags (App_Node (projr (build exKong exLib exSiblingsCLI)))))
        (App_Node (projr (build exKong exLib exSiblingsCLI)))) \<and>
   childFlags (build exKong exLib exSiblingsCLI) =
     [(''serve'', [(''port'', 112)]), (''build'', [(''port'', 112)])] \<and>
   buildField exKong (newNode CommandNode (Struct [] [])) (Struct [] [])
     \<lparr>SF_Name = ''Port'', SF_Anonymous = False\<rparr> (Scalar ''0'') (newEmptyTag\<lparr>Tag_Short := 112\<rparr>)
     ''port'' {''--port'', ''-p''} = Inl (DuplicateFlag ''port'') \<and>
   errorOf (build exKong exLib exFlagFirstCLI) = Some (DuplicateFlag ''port'') \<and>
   errorOf (build exKong exLib exShortCLI) = Some (DuplicateShortFlag 112) \<and>
   flattenedFields exPortServe = Inr ([exPortEntry] @ exServeEntry # [], exPortServe) \<and>
   \<not> isl (buildNode exKong exLib exPortServe ApplicationNode {}) \<and>
   \<not> ignoredField exKong exPortServe exServeEntry \<and> isBranch exKong exServeEntry \<and>
   (\<exists>n1 s1 rest child.
      buildFields exKong exLib exPortServe [exPortEntry] (newNode ApplicationNode exPortServe) {} =
        Inr (n1, s1) \<and>
      Node_Flags (fst (projr (buildNode exKong exLib exPortServe ApplicationNode {}))) =
        Node_Flags n1 @ rest \<and>
      child \<in> set (Node_Children
        (fst (projr (buildNode exKong exLib exPortServe ApplicationNode {})))) \<and>
      Node_Name child = fieldName exLib exServeEntry \<and>
      flagsScoped ({} \<union> set (concat (map flagKeys (Node_Flags n1)))) child) \<and>
   flagsOf (fst (projr (buildNode exKong exLib exPortServe ApplicationNode {}))) =
     [(''port'', 112)] \<and>
   map (\<lambda>c. (Node_Name c, flagsOf c))
     (Node_Children (fst (projr (buildNode exKong exLib exPortServe ApplicationNode {})))) =
     [(''serve'', [(''host'', 0)])]"
proof -
  have a: "\<not> isl (build exKong exLib exSiblingsCLI)" by code_simp
  then have a': "build exKong exLib exSiblingsCLI = Inr (projr (build exKong exLib exSiblingsCLI))"
    by simp
  have e: "extraFlags exKong = []" by (simp add: exKong_def)
  from flag_names_scoped[where k = exKong and lib = exLib and ast = exSiblingsCLI,
      THEN conjunct2, THEN conjunct2, THEN conjunct2, THEN conjunct2, THEN conjunct1,
      THEN spec, THEN mp, OF a']
  have b: "flagsScoped {}
     (set_Flags (drop 0 (Node_Flags (App_Node (projr (build exKong exLib exSiblingsCLI)))))
        (App_Node (projr (build exKong exLib exSiblingsCLI))))"
    by (simp only: e list.set image_empty list.size)
  have c: "childFlags (build exKong exLib exSiblingsCLI) =
     [(''serve'', [(''port'', 112)]), (''build'', [(''port'', 112)])]"
    by code_simp
  have m: "ForNamedValue exKong (Tag_Type (newEmptyTag\<lparr>Tag_Short := 112\<rparr>)) (Scalar ''0'') = Some 0 \<and>
      \<not> Tag_Arg (newEmptyTag\<lparr>Tag_Short := 112\<rparr>)"
    by (simp add: exKong_def newEmptyTag_def)
  have s: "''--'' @ ''port'' \<in> {''--port'', ''-p''}" by simp
  from flag_names_scoped[where k = exKong and tag = "newEmptyTag\<lparr>Tag_Short := 112\<rparr>"
      and fv = "Scalar ''0''" and name = "''port''" and seen = "{''--port'', ''-p''}"
      and node = "newNode CommandNode (Struct [] [])" and v = "Struct [] []"
      and ft = "\<lparr>SF_Name = ''Port'', SF_Anonymous = False\<rparr>",
      THEN conjunct2, THEN conjunct2, THEN conjunct2, THEN conjunct1, THEN spec, THEN mp, OF m,
      THEN conjunct1, THEN mp, OF s]
  have d: "buildField exKong (newNode CommandNode (Struct [] [])) (Struct [] [])
     \<lparr>SF_Name = ''Port'', SF_Anonymous = False\<rparr> (Scalar ''0'') (newEmptyTag\<lparr>Tag_Short := 112\<rparr>)
     ''port'' {''--port'', ''-p''} = Inl (DuplicateFlag ''port'')" .
  have f: "errorOf (build exKong exLib exFlagFirstCLI) = Some (DuplicateFlag ''port'')"
    by code_simp
  have g: "errorOf (build exKong exLib exShortCLI) = Some (DuplicateShortFlag 112)"
    by code_simp
  let ?B = "buildNode exKong exLib exPortServe ApplicationNode {}"
  have fl: "flattenedFields exPortServe = Inr ([exPortEntry] @ exServeEntry # [], exPortServe)"
    by (simp add: exPortServe_def exPort_def exField_def exPortEntry_def exServeEntry_def
        exCmdTag_def newEmptyTag_def)
  have h: "\<not> isl ?B" by code_simp
  then have h': "?B = Inr (fst (projr ?B), snd (projr ?B))" by (simp del: buildNode.simps)
  have ni: "\<not> ignoredField exKong exPortServe exServeEntry" by code_simp
  have br: "isBranch exKong exServeEntry" by code_simp
  note i = flag_names_scoped[where k = exKong and lib = exLib and v = exPortServe
      and ty = ApplicationNode and seen = "{}",
      THEN conjunct2, THEN conjunct2, THEN conjunct2, THEN conjunct2, THEN conjunct2,
      THEN conjunct2, THEN spec, THEN spec, THEN spec, THEN spec, THEN spec, THEN spec, THEN mp,
      OF conjI[OF fl conjI[OF h' conjI[OF ni br]]]]
  have j: "flagsOf (fst (projr ?B)) = [(''port'', 112)]" by code_simp
  have l: "map (\<lambda>c. (Node_Name c, flagsOf c)) (Node_Children (fst (projr ?B))) =
     [(''serve'', [(''host'', 0)])]"
    by code_simp
  from a b c d f g fl h ni br i j l show ?thesis by blast
qed

end
